theory Spec2Isabelle
  imports Complex_Main
begin

section \<open>Residual kernels of the plug-flow-reactor notebook\<close>

text \<open>
  The notebook \<^verbatim>\<open>sample/Compare_Numpy_Cython_Numba.ipynb\<close> defines a parameter class
  \<^verbatim>\<open>pfr\<close>, several Python residual kernels sharing one stencil, and the set-up functions of
  its timing comparison. In the kernels and the set-up functions Python floats are read
  as real numbers, without rounding, infinities or NaN; the inlet closure is modelled a
  second time on binary64 values, where its exactness is a property of the rounding.
  Every exception the Python can raise on the modelled paths is a value \<open>Inl e\<close>.
\<close>

subsection \<open>Exceptions\<close>

datatype error = ZeroDivisionError | IndexError | ValueError | OverflowError | TypeError

text \<open>Sequencing of two statements: the second runs only if the first did not raise.\<close>

definition bindE :: "error + 'a \<Rightarrow> ('a \<Rightarrow> error + 'b) \<Rightarrow> error + 'b" where
  "bindE m f = (case m of Inl e \<Rightarrow> Inl e | Inr x \<Rightarrow> f x)"

text \<open>Python's \<^verbatim>\<open>a / b\<close> on floats raises on a zero divisor.\<close>

definition py_div :: "real \<Rightarrow> real \<Rightarrow> error + real" where
  "py_div a b = (if b = 0 then Inl ZeroDivisionError else Inr (a / b))"

subsection \<open>The parameter class\<close>

text \<open>
  \<^verbatim>\<open>
  class pfr():
      def __init__(self, N = 20):
          self.D = 1.0
          self.vz = 1.0
          self.k = 1.0
          self.Cf = 1.0
          self.z0 = 0.0
          self.zf = 1.0
          self.N = N
          self.h = self.get_h()

      def get_h(self):
          return (self.zf - self.z0) / self.N
  \<close>
  An instance is a plain Python object: each attribute is an independent mutable slot,
  and an assignment \<^verbatim>\<open>par.N = v\<close> is the record update \<open>par\<lparr>N := v\<rparr>\<close>.
  \<^verbatim>\<open>N\<close> is a Python integer of a size that converts to a float, as every grid size is.
\<close>

record pfr =
  D :: real
  vz :: real
  k :: real
  Cf :: real
  z0 :: real
  zf :: real
  N :: int
  h :: real

definition get_h :: "pfr \<Rightarrow> error + real" where
  "get_h self = py_div (zf self - z0 self) (real_of_int (N self))"

text \<open>
  The attribute \<^verbatim>\<open>h\<close> does not exist before the last assignment of \<^verbatim>\<open>__init__\<close>;
  \<open>get_h\<close> does not read it, so the slot holds \<open>0\<close> until then.
\<close>

definition pfr_init :: "int \<Rightarrow> error + pfr" where
  "pfr_init n =
     (let self = \<lparr>D = 1, vz = 1, k = 1, Cf = 1, z0 = 0, zf = 1, N = n, h = 0\<rparr>
      in bindE (get_h self) (\<lambda>v. Inr (self\<lparr>h := v\<rparr>)))"

subsection \<open>NumPy arrays\<close>

text \<open>
  A one-dimensional float array is a list of reals. An integer index \<open>i\<close> into an array
  of length \<open>n\<close> is valid for \<open>- n \<le> i < n\<close>, negative indices counting from the end;
  any other index raises \<^verbatim>\<open>IndexError\<close>.
\<close>

definition np_get :: "real list \<Rightarrow> int \<Rightarrow> error + real" where
  "np_get xs i =
     (if - int (length xs) \<le> i \<and> i < int (length xs)
      then Inr (xs ! nat (if i < 0 then i + int (length xs) else i))
      else Inl IndexError)"

definition np_set :: "real list \<Rightarrow> int \<Rightarrow> real \<Rightarrow> error + real list" where
  "np_set xs i v =
     (if - int (length xs) \<le> i \<and> i < int (length xs)
      then Inr (xs[nat (if i < 0 then i + int (length xs) else i) := v])
      else Inl IndexError)"

text \<open>\<^verbatim>\<open>np.arange(a, b)\<close> on integers: \<open>a, a + 1, \<dots>, b - 1\<close>, empty when \<open>b \<le> a\<close>.\<close>

definition np_arange :: "int \<Rightarrow> int \<Rightarrow> int list" where
  "np_arange a b = [a..b - 1]"

text \<open>
  A basic slice \<^verbatim>\<open>xs[a:b]\<close> with step one. A missing bound is \<open>None\<close>; a negative bound
  counts from the end; both are clamped to the array.
\<close>

definition slice_bound :: "nat \<Rightarrow> int \<Rightarrow> nat" where
  "slice_bound n i = (if i < 0 then nat (max 0 (i + int n)) else min n (nat i))"

definition slice_start :: "nat \<Rightarrow> int option \<Rightarrow> nat" where
  "slice_start n a = (case a of None \<Rightarrow> 0 | Some i \<Rightarrow> slice_bound n i)"

definition slice_stop :: "nat \<Rightarrow> int option \<Rightarrow> nat" where
  "slice_stop n b = (case b of None \<Rightarrow> n | Some i \<Rightarrow> slice_bound n i)"

definition np_slice :: "real list \<Rightarrow> int option \<Rightarrow> int option \<Rightarrow> real list" where
  "np_slice xs a b =
     take (slice_stop (length xs) b - slice_start (length xs) a)
          (drop (slice_start (length xs) a) xs)"

text \<open>
  An element-wise binary operation on two arrays. Equal lengths combine position by
  position; an array of length one is broadcast against the other; any other pair of
  lengths raises \<^verbatim>\<open>ValueError\<close>.
\<close>

definition np_binop :: "(real \<Rightarrow> real \<Rightarrow> real) \<Rightarrow> real list \<Rightarrow> real list \<Rightarrow> error + real list" where
  "np_binop f xs ys =
     (if length xs = length ys then Inr (map2 f xs ys)
      else if length xs = 1 then Inr (map (f (hd xs)) ys)
      else if length ys = 1 then Inr (map (\<lambda>x. f x (hd ys)) xs)
      else Inl ValueError)"

text \<open>A Python float times an array.\<close>

definition np_scale :: "real \<Rightarrow> real list \<Rightarrow> real list" where
  "np_scale a xs = map (\<lambda>x. a * x) xs"

text \<open>
  The slice assignment \<^verbatim>\<open>xs[a:b] = vs\<close>: the right-hand side must have the length of the
  slice, or length one, in which case it fills the slice.
\<close>

definition np_set_slice :: "real list \<Rightarrow> int option \<Rightarrow> int option \<Rightarrow> real list \<Rightarrow> error + real list" where
  "np_set_slice xs a b vs =
     (let lo = slice_start (length xs) a;
          len = slice_stop (length xs) b - lo
      in if length vs = len then Inr (take lo xs @ vs @ drop (lo + len) xs)
         else if length vs = 1 then Inr (take lo xs @ replicate len (hd vs) @ drop (lo + len) xs)
         else Inl ValueError)"

subsection \<open>The element-wise kernel\<close>

text \<open>
  All kernels open with the same lines. The inlet ghost value is the pair of statements
  \<^verbatim>\<open>
      aux1 = D / (vz * h)
      C0 = 1.0 / (1.0 + aux1) * (aux1 * Ci[0] + Cf)
  \<close>
  evaluated left to right: both divisions come before the read of \<^verbatim>\<open>Ci[0]\<close>.
\<close>

definition inlet_ghost :: "pfr \<Rightarrow> real list \<Rightarrow> error + real" where
  "inlet_ghost par Ci =
     bindE (py_div (D par) (vz par * h par)) (\<lambda>aux1.
     bindE (py_div 1 (1 + aux1)) (\<lambda>q.
     bindE (np_get Ci 0) (\<lambda>Ci0.
     Inr (q * (aux1 * Ci0 + Cf par)))))"

text \<open>
  \<^verbatim>\<open>
      for i in np.arange(1, N - 1):
          tt1 = aux2 * (Ci[i + 1] - 2.0 * Ci[i] + Ci[i - 1])
          tt2 = -aux3 * (Ci[i + 1] - Ci[i - 1]) + k * Ci[i]
          res[i] = tt1 + tt2 - dCi[i]
  \<close>
  The loop runs over the list of indices it is given and threads the residual array.
  An element read twice in one statement is bound once.
\<close>

fun pfr_loop :: "pfr \<Rightarrow> real \<Rightarrow> real \<Rightarrow> real list \<Rightarrow> real list \<Rightarrow> int list \<Rightarrow> real list
    \<Rightarrow> error + real list" where
  "pfr_loop par aux2 aux3 Ci dCi [] res = Inr res"
| "pfr_loop par aux2 aux3 Ci dCi (i # idx) res =
     bindE (np_get Ci (i + 1)) (\<lambda>cp.
     bindE (np_get Ci i) (\<lambda>c.
     bindE (np_get Ci (i - 1)) (\<lambda>cm.
     let tt1 = aux2 * (cp - 2 * c + cm);
         tt2 = - aux3 * (cp - cm) + k par * c
     in bindE (np_get dCi i) (\<lambda>dc.
        bindE (np_set res i (tt1 + tt2 - dc)) (\<lambda>res'.
        pfr_loop par aux2 aux3 Ci dCi idx res')))))"

text \<open>
  \<^verbatim>\<open>
  def model_pfr(t, y, yp, par, res):
      N = par.N
      D, vz, k, Cf, h = par.D, par.vz, par.k, par.Cf, par.h
      dCi = yp
      Ci = y
      aux1 = D / (vz * h)
      C0 = 1.0 / (1.0 + aux1) * (aux1 * Ci[0] + Cf)
      CNp1 = Ci[N - 1]
      aux2 = D / h**2
      aux3 = vz / (2 * h)
      res[0] = aux2 * (Ci[1] - 2.0 * Ci[0] + C0) - \
          aux3 * (Ci[1] - C0) + k * Ci[0] - dCi[0]
      for i in np.arange(1, N - 1):
          ...
      res[N - 1] = aux2 * (CNp1 - 2.0 * Ci[N - 1] + Ci[N - 2]) - \
          aux3 * (CNp1 - Ci[N - 2]) + k * Ci[N - 1] - dCi[N - 1]
      return res, 0
  \<close>
  The arrays \<^verbatim>\<open>y\<close>, \<^verbatim>\<open>yp\<close> and \<^verbatim>\<open>res\<close> are three separate arrays, as the solver passes
  them; the kernel returns the updated \<^verbatim>\<open>res\<close> together with the status.
\<close>

definition model_pfr :: "real \<Rightarrow> real list \<Rightarrow> real list \<Rightarrow> pfr \<Rightarrow> real list
    \<Rightarrow> error + (real list \<times> int)" where
  "model_pfr t y yp par res =
     bindE (inlet_ghost par y) (\<lambda>C0.
     bindE (np_get y (N par - 1)) (\<lambda>CNp1.
     bindE (py_div (D par) ((h par)\<^sup>2)) (\<lambda>aux2.
     bindE (py_div (vz par) (2 * h par)) (\<lambda>aux3.
     bindE (np_get y 1) (\<lambda>y1.
     bindE (np_get y 0) (\<lambda>y0.
     bindE (np_get yp 0) (\<lambda>yp0.
     bindE (np_set res 0
        (aux2 * (y1 - 2 * y0 + C0) - aux3 * (y1 - C0) + k par * y0 - yp0)) (\<lambda>res.
     bindE (pfr_loop par aux2 aux3 y yp (np_arange 1 (N par - 1)) res) (\<lambda>res.
     bindE (np_get y (N par - 1)) (\<lambda>yN1.
     bindE (np_get y (N par - 2)) (\<lambda>yN2.
     bindE (np_get yp (N par - 1)) (\<lambda>ypN1.
     bindE (np_set res (N par - 1)
        (aux2 * (CNp1 - 2 * yN1 + yN2) - aux3 * (CNp1 - yN2) + k par * yN1 - ypN1)) (\<lambda>res.
     Inr (res, 0))))))))))))))"

subsection \<open>The bulk-array kernels\<close>

text \<open>
  \<^verbatim>\<open>
      tt1 = aux2 * (Ci[2:] - 2.0 * Ci[1:-1] + Ci[0:-2])
      tt2 = -aux3 * (Ci[2:] - Ci[0:-2]) + k * Ci[1:-1]
      res[1:-1] = tt1 + tt2 - dCi[1:-1]
  \<close>
  replaces the loop; the right-hand side is a new array, computed in full before the
  slice of \<^verbatim>\<open>res\<close> is overwritten.
\<close>

definition pfr_bulk :: "pfr \<Rightarrow> real \<Rightarrow> real \<Rightarrow> real list \<Rightarrow> real list \<Rightarrow> real list
    \<Rightarrow> error + real list" where
  "pfr_bulk par aux2 aux3 Ci dCi res =
     bindE (np_binop (-) (np_slice Ci (Some 2) None)
                         (np_scale 2 (np_slice Ci (Some 1) (Some (- 1))))) (\<lambda>a.
     bindE (np_binop (+) a (np_slice Ci (Some 0) (Some (- 2)))) (\<lambda>b.
     let tt1 = np_scale aux2 b
     in bindE (np_binop (-) (np_slice Ci (Some 2) None) (np_slice Ci (Some 0) (Some (- 2)))) (\<lambda>c.
        bindE (np_binop (+) (np_scale (- aux3) c)
                            (np_scale (k par) (np_slice Ci (Some 1) (Some (- 1))))) (\<lambda>tt2.
        bindE (np_binop (+) tt1 tt2) (\<lambda>s.
        bindE (np_binop (-) s (np_slice dCi (Some 1) (Some (- 1)))) (\<lambda>r.
        np_set_slice res (Some 1) (Some (- 1)) r))))))"

definition model_pfr_np :: "real \<Rightarrow> real list \<Rightarrow> real list \<Rightarrow> pfr \<Rightarrow> real list
    \<Rightarrow> error + (real list \<times> int)" where
  "model_pfr_np t y yp par res =
     bindE (inlet_ghost par y) (\<lambda>C0.
     bindE (np_get y (N par - 1)) (\<lambda>CNp1.
     bindE (py_div (D par) ((h par)\<^sup>2)) (\<lambda>aux2.
     bindE (py_div (vz par) (2 * h par)) (\<lambda>aux3.
     bindE (np_get y 1) (\<lambda>y1.
     bindE (np_get y 0) (\<lambda>y0.
     bindE (np_get yp 0) (\<lambda>yp0.
     bindE (np_set res 0
        (aux2 * (y1 - 2 * y0 + C0) - aux3 * (y1 - C0) + k par * y0 - yp0)) (\<lambda>res.
     bindE (pfr_bulk par aux2 aux3 y yp res) (\<lambda>res.
     bindE (np_get y (N par - 1)) (\<lambda>yN1.
     bindE (np_get y (N par - 2)) (\<lambda>yN2.
     bindE (np_get yp (N par - 1)) (\<lambda>ypN1.
     bindE (np_set res (N par - 1)
        (aux2 * (CNp1 - 2 * yN1 + yN2) - aux3 * (CNp1 - yN2) + k par * yN1 - ypN1)) (\<lambda>res.
     Inr (res, 0))))))))))))))"

text \<open>
  \<^verbatim>\<open>
  def model_pfr_np_no_share(t, y, yp, par):
      res = np.empty(y.size)
      ...                        # the body of model_pfr_np
  \<close>
  \<^verbatim>\<open>np.empty\<close> returns an array whose entries are whatever the allocated memory holds;
  \<open>mem\<close> gives that content, position by position.
\<close>

definition np_empty :: "(nat \<Rightarrow> real) \<Rightarrow> nat \<Rightarrow> real list" where
  "np_empty mem n = map mem [0..<n]"

definition model_pfr_np_no_share :: "(nat \<Rightarrow> real) \<Rightarrow> real \<Rightarrow> real list \<Rightarrow> real list \<Rightarrow> pfr
    \<Rightarrow> error + (real list \<times> int)" where
  "model_pfr_np_no_share mem t y yp par =
     (let res = np_empty mem (length y)
      in bindE (inlet_ghost par y) (\<lambda>C0.
         bindE (np_get y (N par - 1)) (\<lambda>CNp1.
         bindE (py_div (D par) ((h par)\<^sup>2)) (\<lambda>aux2.
         bindE (py_div (vz par) (2 * h par)) (\<lambda>aux3.
         bindE (np_get y 1) (\<lambda>y1.
         bindE (np_get y 0) (\<lambda>y0.
         bindE (np_get yp 0) (\<lambda>yp0.
         bindE (np_set res 0
            (aux2 * (y1 - 2 * y0 + C0) - aux3 * (y1 - C0) + k par * y0 - yp0)) (\<lambda>res.
         bindE (pfr_bulk par aux2 aux3 y yp res) (\<lambda>res.
         bindE (np_get y (N par - 1)) (\<lambda>yN1.
         bindE (np_get y (N par - 2)) (\<lambda>yN2.
         bindE (np_get yp (N par - 1)) (\<lambda>ypN1.
         bindE (np_set res (N par - 1)
            (aux2 * (CNp1 - 2 * yN1 + yN2) - aux3 * (CNp1 - yN2) + k par * yN1 - ypN1)) (\<lambda>res.
         Inr (res, 0)))))))))))))))"

subsection \<open>The inlet closure on binary64 values\<close>

text \<open>
  A Python float is an IEEE 754 binary64 value: a finite number, an infinity or NaN. The
  sign of a zero is not kept: \<^verbatim>\<open>==\<close> equates the two zeros, a division by either raises,
  and the operations below differ on them in the sign of a zero result only.
\<close>

datatype fl = Fin real | PInf | NInf | NaN

text \<open>Rounding to an integer, a tie going to the even neighbour.\<close>

definition round_even :: "real \<Rightarrow> int" where
  "round_even x =
     (if x - of_int \<lfloor>x\<rfloor> < 1 / 2 then \<lfloor>x\<rfloor>
      else if 1 / 2 < x - of_int \<lfloor>x\<rfloor> then \<lfloor>x\<rfloor> + 1
      else if even \<lfloor>x\<rfloor> then \<lfloor>x\<rfloor> else \<lfloor>x\<rfloor> + 1)"

text \<open>
  The spacing of binary64 values around \<open>x\<close>: \<open>52\<close> binary places below the leading
  bit, and \<open>2\<^sup>-\<^sup>1\<^sup>0\<^sup>7\<^sup>4\<close> throughout the subnormal range.
\<close>

definition ulp64 :: "real \<Rightarrow> real" where
  "ulp64 x = 2 powr of_int (max \<lfloor>log 2 \<bar>x\<bar>\<rfloor> (- 1022) - 52)"

text \<open>
  The binary64 value of an exact result: the nearest multiple of the spacing, ties to
  even, and an infinity once the rounded magnitude reaches \<open>2\<^sup>1\<^sup>0\<^sup>2\<^sup>4\<close>. A result of
  magnitude at most \<open>2\<^sup>-\<^sup>1\<^sup>0\<^sup>7\<^sup>5\<close> rounds to zero.
\<close>

definition round64 :: "real \<Rightarrow> fl" where
  "round64 x =
     (if x = 0 then Fin 0
      else if 2 ^ 1024 \<le> \<bar>of_int (round_even (x / ulp64 x)) * ulp64 x\<bar>
      then (if 0 < x then PInf else NInf)
      else Fin (of_int (round_even (x / ulp64 x)) * ulp64 x))"

text \<open>A real number is a binary64 value when rounding leaves it as it is.\<close>

definition is_double :: "real \<Rightarrow> bool" where
  "is_double x \<longleftrightarrow> round64 x = Fin x"

text \<open>
  Multiplication and addition never raise. \<^verbatim>\<open>a / b\<close> on Python floats raises
  \<^verbatim>\<open>ZeroDivisionError\<close> when \<open>b\<close> is zero, whatever \<open>a\<close> is, and is the IEEE
  quotient otherwise.
\<close>

fun fl_mul :: "fl \<Rightarrow> fl \<Rightarrow> fl" where
  "fl_mul NaN y = NaN"
| "fl_mul x NaN = NaN"
| "fl_mul (Fin a) (Fin b) = round64 (a * b)"
| "fl_mul (Fin a) y = (if a = 0 then NaN else if (a < 0) = (y = NInf) then PInf else NInf)"
| "fl_mul x (Fin b) = (if b = 0 then NaN else if (b < 0) = (x = NInf) then PInf else NInf)"
| "fl_mul x y = (if x = y then PInf else NInf)"

fun fl_add :: "fl \<Rightarrow> fl \<Rightarrow> fl" where
  "fl_add NaN y = NaN"
| "fl_add x NaN = NaN"
| "fl_add (Fin a) (Fin b) = round64 (a + b)"
| "fl_add (Fin a) y = y"
| "fl_add x (Fin b) = x"
| "fl_add x y = (if x = y then x else NaN)"

fun fl_div :: "fl \<Rightarrow> fl \<Rightarrow> error + fl" where
  "fl_div x (Fin b) =
     (if b = 0 then Inl ZeroDivisionError
      else case x of
             NaN \<Rightarrow> Inr NaN
           | Fin a \<Rightarrow> Inr (round64 (a / b))
           | PInf \<Rightarrow> Inr (if b < 0 then NInf else PInf)
           | NInf \<Rightarrow> Inr (if b < 0 then PInf else NInf))"
| "fl_div NaN y = Inr NaN"
| "fl_div x NaN = Inr NaN"
| "fl_div (Fin a) y = Inr (Fin 0)"
| "fl_div x y = Inr NaN"

text \<open>
  The two statements of the inlet closure on binary64 values, for parameter values
  \<^verbatim>\<open>D\<close>, \<^verbatim>\<open>vz\<close>, \<^verbatim>\<open>h\<close>, \<^verbatim>\<open>Cf\<close> and the element \<^verbatim>\<open>Ci[0]\<close>:
  \<^verbatim>\<open>
      aux1 = D / (vz * h)
      C0 = 1.0 / (1.0 + aux1) * (aux1 * Ci[0] + Cf)
  \<close>
\<close>

definition inlet_ghost_fl :: "fl \<Rightarrow> fl \<Rightarrow> fl \<Rightarrow> fl \<Rightarrow> fl \<Rightarrow> error + fl" where
  "inlet_ghost_fl pD pvz ph pCf Ci0 =
     bindE (fl_div pD (fl_mul pvz ph)) (\<lambda>aux1.
     bindE (fl_div (Fin 1) (fl_add (Fin 1) aux1)) (\<lambda>q.
     Inr (fl_mul q (fl_add (fl_mul aux1 Ci0) pCf))))"

subsection \<open>Objects and the set-up functions of the comparison\<close>

text \<open>
  The set-up functions build parameter objects, arrays and argument lists, all of them
  mutable Python objects with an identity. The heap is the list of objects allocated so
  far; a reference is a position in it, and a new object takes the next position.
\<close>

type_synonym ref = nat

datatype pyval = VNone | VFloat real | VRef ref

datatype pyobj =
    Pfr pfr
  | Pfr_Cython pfr
  | Numba_PFR pfr
  | NdArray "real list"
  | PyList "pyval list"

type_synonym heap = "pyobj list"

definition new :: "pyobj \<Rightarrow> heap \<Rightarrow> ref \<times> heap" where
  "new ob hp = (length hp, hp @ [ob])"

definition deref :: "heap \<Rightarrow> ref \<Rightarrow> pyobj option" where
  "deref hp r = (if r < length hp then Some (hp ! r) else None)"

text \<open>\<^verbatim>\<open>xs[i] = v\<close> on a Python list held at reference \<open>r\<close>.\<close>

definition list_setitem :: "ref \<Rightarrow> int \<Rightarrow> pyval \<Rightarrow> heap \<Rightarrow> error + heap" where
  "list_setitem r i v hp =
     (case deref hp r of
        Some (PyList xs) \<Rightarrow>
          if - int (length xs) \<le> i \<and> i < int (length xs)
          then Inr (hp[r := PyList (xs[nat (if i < 0 then i + int (length xs) else i) := v])])
          else Inl IndexError
      | _ \<Rightarrow> Inl TypeError)"

text \<open>\<^verbatim>\<open>np.zeros(n)\<close> refuses a negative length.\<close>

definition np_zeros :: "int \<Rightarrow> error + real list" where
  "np_zeros n = (if n < 0 then Inl ValueError else Inr (replicate (nat n) 0))"

text \<open>
  \<^verbatim>\<open>
  def solver_setup_base(N):
      par = pfr(N)
      t0 = np.array([5.0])
      y0 = np.zeros(par.N)
      yp0 = None
      atol = 1e-8
      rtol = 1e-6
      return [t0, y0, yp0, par, rtol, atol]
  \<close>
\<close>

definition solver_setup_base :: "int \<Rightarrow> heap \<Rightarrow> error + (ref \<times> heap)" where
  "solver_setup_base n hp =
     bindE (pfr_init n) (\<lambda>p.
     let (par, hp) = new (Pfr p) hp;
         (t0, hp) = new (NdArray [5]) hp
     in bindE (np_zeros (N p)) (\<lambda>zs.
        let (y0, hp) = new (NdArray zs) hp
        in Inr (new (PyList [VRef t0, VRef y0, VNone, VRef par,
                             VFloat (1 / 10 ^ 6), VFloat (1 / 10 ^ 8)]) hp)))"

text \<open>
  \<^verbatim>\<open>Pfr_Cython\<close> declares \<^verbatim>\<open>int N\<close>: its constructor first converts the argument to a
  C \<^verbatim>\<open>int\<close>, which raises \<^verbatim>\<open>OverflowError\<close> outside 32 bits, and then runs the same
  assignments as \<^verbatim>\<open>pfr.__init__\<close>. \<^verbatim>\<open>Numba_PFR = numba.jitclass(spec)(pfr)\<close> is the
  class \<^verbatim>\<open>pfr\<close> itself with typed fields; \<^verbatim>\<open>setups_all\<close> constructs it only after
  \<^verbatim>\<open>Pfr_Cython(N)\<close> has accepted the same \<^verbatim>\<open>N\<close>.
\<close>

definition Pfr_Cython_init :: "int \<Rightarrow> error + pfr" where
  "Pfr_Cython_init n =
     (if - (2 ^ 31) \<le> n \<and> n < 2 ^ 31 then pfr_init n else Inl OverflowError)"

definition Numba_PFR_init :: "int \<Rightarrow> error + pfr" where
  "Numba_PFR_init n = pfr_init n"

text \<open>
  \<^verbatim>\<open>
  def setups_all(N):
      base_args = solver_setup_base(N)
      pr_Cy = Pfr_Cython(N)
      cy_args = solver_setup_base(N)
      cy_args[3] = None
      numba_pfr = Numba_PFR(N)
      numba_args = solver_setup_base(N)
      numba_args[3] = numba_pfr
      return base_args, (pr_Cy, cy_args), numba_args
  \<close>
\<close>

type_synonym setups = "ref \<times> (ref \<times> ref) \<times> ref"

definition setups_all :: "int \<Rightarrow> heap \<Rightarrow> error + (setups \<times> heap)" where
  "setups_all n hp =
     bindE (solver_setup_base n hp) (\<lambda>(base_args, hp).
     bindE (Pfr_Cython_init n) (\<lambda>pc.
     let (pr_Cy, hp) = new (Pfr_Cython pc) hp
     in bindE (solver_setup_base n hp) (\<lambda>(cy_args, hp).
        bindE (list_setitem cy_args 3 VNone hp) (\<lambda>hp.
        bindE (Numba_PFR_init n) (\<lambda>pn.
        let (numba_pfr, hp) = new (Numba_PFR pn) hp
        in bindE (solver_setup_base n hp) (\<lambda>(numba_args, hp).
           bindE (list_setitem numba_args 3 (VRef numba_pfr) hp) (\<lambda>hp.
           Inr ((base_args, (pr_Cy, cy_args), numba_args), hp))))))))"

text \<open>
  Each timed function picks its kernel and its arguments out of the tuple that
  \<^verbatim>\<open>setups_all\<close> returned:
  \<^verbatim>\<open>
  def run_py(opts_setup):          dyn_solver(model_pfr, *opts_setup[0])
  def run_np(opts_setup):          dyn_solver(model_pfr_np, *opts_setup[0])
  def run_cy_naive(opts_setup):    dyn_solver(model_pfr_cy, *opts_setup[0])
  def run_cy_typed(opts_setup):    dyn_solver(opts_setup[1][0].cython_model, *opts_setup[1][1])
  def run_numba(opts_setup):       dyn_solver(jitted_pfr_model, *opts_setup[2])
  def run_np_no_share(opts_setup): dasslcy.solve(model_pfr_np_no_share, *opts_setup[0])
  \<close>
  The solver itself is not part of the notebook. \<open>runner_args\<close> is the argument list a
  timed function unpacks, \<open>runner_self\<close> the object whose bound method it passes.
\<close>

datatype runner = Run_py | Run_np | Run_cy_naive | Run_cy_typed | Run_numba | Run_np_no_share

fun runner_args :: "runner \<Rightarrow> setups \<Rightarrow> ref" where
  "runner_args Run_py (base_args, (pr_Cy, cy_args), numba_args) = base_args"
| "runner_args Run_np (base_args, (pr_Cy, cy_args), numba_args) = base_args"
| "runner_args Run_cy_naive (base_args, (pr_Cy, cy_args), numba_args) = base_args"
| "runner_args Run_cy_typed (base_args, (pr_Cy, cy_args), numba_args) = cy_args"
| "runner_args Run_numba (base_args, (pr_Cy, cy_args), numba_args) = numba_args"
| "runner_args Run_np_no_share (base_args, (pr_Cy, cy_args), numba_args) = base_args"

fun runner_self :: "runner \<Rightarrow> setups \<Rightarrow> ref list" where
  "runner_self Run_cy_typed (base_args, (pr_Cy, cy_args), numba_args) = [pr_Cy]"
| "runner_self r s = []"

text \<open>The references stored in a list, and the mutable objects a timed function can reach.\<close>

fun refs_of :: "pyval list \<Rightarrow> ref list" where
  "refs_of [] = []"
| "refs_of (VRef r # vs) = r # refs_of vs"
| "refs_of (v # vs) = refs_of vs"

definition list_items :: "heap \<Rightarrow> ref \<Rightarrow> pyval list" where
  "list_items hp r = (case deref hp r of Some (PyList xs) \<Rightarrow> xs | _ \<Rightarrow> [])"

definition runner_objs :: "heap \<Rightarrow> runner \<Rightarrow> setups \<Rightarrow> ref set" where
  "runner_objs hp r s =
     set (runner_args r s # refs_of (list_items hp (runner_args r s)) @ runner_self r s)"

text \<open>
  What a kernel evaluation on a set-up depends on: the fields of the parameter object
  (the fourth argument, or the object of the bound method) and the initial state
  \<^verbatim>\<open>y0\<close> (the second argument).
\<close>

definition fields_at :: "heap \<Rightarrow> ref \<Rightarrow> pfr option" where
  "fields_at hp r =
     (case deref hp r of
        Some (Pfr p) \<Rightarrow> Some p
      | Some (Pfr_Cython p) \<Rightarrow> Some p
      | Some (Numba_PFR p) \<Rightarrow> Some p
      | _ \<Rightarrow> None)"

definition runner_par :: "heap \<Rightarrow> runner \<Rightarrow> setups \<Rightarrow> pfr option" where
  "runner_par hp r s =
     (case runner_self r s of
        ob # _ \<Rightarrow> fields_at hp ob
      | [] \<Rightarrow> (case list_items hp (runner_args r s) of
                 [_, _, _, VRef par, _, _] \<Rightarrow> fields_at hp par
               | _ \<Rightarrow> None))"

definition runner_y0 :: "heap \<Rightarrow> runner \<Rightarrow> setups \<Rightarrow> real list option" where
  "runner_y0 hp r s =
     (case list_items hp (runner_args r s) of
        [_, VRef y0, _, _, _, _] \<Rightarrow>
          (case deref hp y0 of Some (NdArray ys) \<Rightarrow> Some ys | _ \<Rightarrow> None)
      | _ \<Rightarrow> None)"

text \<open>
  The residual \<^verbatim>\<open>run_py\<close>'s kernel computes on a set-up, at the set-up's initial state,
  for a derivative vector and a residual buffer supplied by the caller.
\<close>

definition run_py_residual :: "heap \<Rightarrow> setups \<Rightarrow> real \<Rightarrow> real list \<Rightarrow> real list
    \<Rightarrow> (error + (real list \<times> int)) option" where
  "run_py_residual hp s t yp res =
     (case (runner_par hp Run_py s, runner_y0 hp Run_py s) of
        (Some par, Some y0) \<Rightarrow> Some (model_pfr t y0 yp par res)
      | _ \<Rightarrow> None)"

section \<open>Properties\<close>

subsection \<open>Auxiliary notions\<close>

text \<open>The invariant the parameter object is expected to keep.\<close>

definition pfr_inv :: "pfr \<Rightarrow> bool" where
  "pfr_inv p \<longleftrightarrow> h p = (zf p - z0 p) / real_of_int (N p) \<and> 0 < h p"

text \<open>One-based reading of a vector, as the stencil formula is written.\<close>

definition nth1 :: "real list \<Rightarrow> nat \<Rightarrow> real" where
  "nth1 xs i = xs ! (i - 1)"

text \<open>The value the loop body stores at position \<open>j\<close>.\<close>

definition loop_row :: "pfr \<Rightarrow> real \<Rightarrow> real \<Rightarrow> real list \<Rightarrow> real list \<Rightarrow> nat \<Rightarrow> real" where
  "loop_row par aux2 aux3 Ci dCi j =
     aux2 * (Ci ! (j + 1) - 2 * Ci ! j + Ci ! (j - 1))
     + (- aux3 * (Ci ! (j + 1) - Ci ! (j - 1)) + k par * Ci ! j) - dCi ! j"

text \<open>A residual array whose positions \<open>a, \<dots>, b\<close> hold the loop's values.\<close>

definition rows_between :: "pfr \<Rightarrow> real \<Rightarrow> real \<Rightarrow> real list \<Rightarrow> real list \<Rightarrow> int \<Rightarrow> int
    \<Rightarrow> real list \<Rightarrow> real list" where
  "rows_between par aux2 aux3 Ci dCi a b res =
     map (\<lambda>j. if a \<le> int j \<and> int j \<le> b then loop_row par aux2 aux3 Ci dCi j else res ! j)
         [0..<length res]"

definition bulk_rows :: "pfr \<Rightarrow> real \<Rightarrow> real \<Rightarrow> real list \<Rightarrow> real list \<Rightarrow> real list" where
  "bulk_rows par aux2 aux3 Ci dCi =
     map (\<lambda>i. loop_row par aux2 aux3 Ci dCi (i + 1)) [0..<length Ci - 2]"

text \<open>
  The residual array in closed form: the inlet row, the interior rows and the outlet
  row, each with the expression the kernels evaluate for it, and the kernel's value as
  it depends on the four divisions alone.
\<close>

definition stencil_rows :: "pfr \<Rightarrow> real \<Rightarrow> real \<Rightarrow> real \<Rightarrow> real list \<Rightarrow> real list \<Rightarrow> real list" where
  "stencil_rows par C0 aux2 aux3 Ci dCi =
     (aux2 * (Ci ! 1 - 2 * Ci ! 0 + C0) - aux3 * (Ci ! 1 - C0) + k par * Ci ! 0 - dCi ! 0)
     # bulk_rows par aux2 aux3 Ci dCi
     @ [aux2 * (Ci ! (length Ci - 1) - 2 * Ci ! (length Ci - 1) + Ci ! (length Ci - 2))
        - aux3 * (Ci ! (length Ci - 1) - Ci ! (length Ci - 2))
        + k par * Ci ! (length Ci - 1) - dCi ! (length Ci - 1)]"

definition kernel_value :: "pfr \<Rightarrow> real list \<Rightarrow> real list \<Rightarrow> error + (real list \<times> int)" where
  "kernel_value par Ci dCi =
     bindE (py_div (D par) (vz par * h par)) (\<lambda>aux1.
     bindE (py_div 1 (1 + aux1)) (\<lambda>q.
     bindE (py_div (D par) ((h par)\<^sup>2)) (\<lambda>aux2.
     bindE (py_div (vz par) (2 * h par)) (\<lambda>aux3.
     Inr (stencil_rows par (q * (aux1 * Ci ! 0 + Cf par)) aux2 aux3 Ci dCi, 0)))))"

text \<open>
  The stencil as the specification words it: one formula for every row, in the
  concentrations before, at and after the node, and the inlet ghost value.
\<close>

definition spec_stencil :: "pfr \<Rightarrow> real \<Rightarrow> real \<Rightarrow> real \<Rightarrow> real \<Rightarrow> real" where
  "spec_stencil par Cm Cc Cp dCc =
     D par / (h par)\<^sup>2 * (Cp - 2 * Cc + Cm) - vz par / (2 * h par) * (Cp - Cm) + k par * Cc - dCc"

definition spec_inlet_C0 :: "pfr \<Rightarrow> real \<Rightarrow> real" where
  "spec_inlet_C0 par C1 =
     (D par / (vz par * h par) * C1 + Cf par) / (1 + D par / (vz par * h par))"

text \<open>The fourteen objects one call of \<^verbatim>\<open>setups_all\<close> adds to a heap of length \<open>l\<close>.\<close>

definition setup_heap :: "int \<Rightarrow> nat \<Rightarrow> pyobj list" where
  "setup_heap n l =
     [Pfr \<lparr>D = 1, vz = 1, k = 1, Cf = 1, z0 = 0, zf = 1, N = n, h = 1 / real_of_int n\<rparr>,
      NdArray [5],
      NdArray (replicate (nat n) 0),
      PyList [VRef (l + 1), VRef (l + 2), VNone, VRef l, VFloat (1 / 10 ^ 6), VFloat (1 / 10 ^ 8)],
      Pfr_Cython \<lparr>D = 1, vz = 1, k = 1, Cf = 1, z0 = 0, zf = 1, N = n, h = 1 / real_of_int n\<rparr>,
      Pfr \<lparr>D = 1, vz = 1, k = 1, Cf = 1, z0 = 0, zf = 1, N = n, h = 1 / real_of_int n\<rparr>,
      NdArray [5],
      NdArray (replicate (nat n) 0),
      PyList [VRef (l + 6), VRef (l + 7), VNone, VNone, VFloat (1 / 10 ^ 6), VFloat (1 / 10 ^ 8)],
      Numba_PFR \<lparr>D = 1, vz = 1, k = 1, Cf = 1, z0 = 0, zf = 1, N = n, h = 1 / real_of_int n\<rparr>,
      Pfr \<lparr>D = 1, vz = 1, k = 1, Cf = 1, z0 = 0, zf = 1, N = n, h = 1 / real_of_int n\<rparr>,
      NdArray [5],
      NdArray (replicate (nat n) 0),
      PyList [VRef (l + 11), VRef (l + 12), VNone, VRef (l + 9),
              VFloat (1 / 10 ^ 6), VFloat (1 / 10 ^ 8)]]"

subsection \<open>Sequencing\<close>

lemma bindE_Inr [simp]: "bindE (Inr x) f = f x"
  by (simp add: bindE_def)

lemma bindE_Inl [simp]: "bindE (Inl e) f = Inl e"
  by (simp add: bindE_def)

lemma bindE_eq_Inr: "bindE m f = Inr z \<longleftrightarrow> (\<exists>x. m = Inr x \<and> f x = Inr z)"
  by (cases m) simp_all

lemma bindE_assoc: "bindE (bindE m f) g = bindE m (\<lambda>x. bindE (f x) g)"
  by (cases m) simp_all

subsection \<open>Construction of the parameter object\<close>

text \<open>
  C4 (as stated, refuted). The claim has \<^verbatim>\<open>pfr(N)\<close> fail for \<open>N < 2\<close>; the constructor
  checks nothing, and \<^verbatim>\<open>pfr(1)\<close> returns an object with \<open>h = 1\<close>.
\<close>

theorem pfr_init_small_N_counterexample:
  "pfr_init 1 = Inr \<lparr>D = 1, vz = 1, k = 1, Cf = 1, z0 = 0, zf = 1, N = 1, h = 1\<rparr>"
  by (simp add: pfr_init_def get_h_def py_div_def)

text \<open>
  C4 (amended). The constructor takes \<open>N\<close> only, a Python integer; \<open>z0 = 0\<close>, \<open>zf = 1\<close> and
  \<open>vz = 1\<close> are fixed. It validates nothing: \<open>N = 0\<close> raises \<^verbatim>\<open>ZeroDivisionError\<close>, and
  every other \<open>N\<close> that converts to a float, \<open>\<bar>N\<bar> < 2\<^sup>1\<^sup>0\<^sup>2\<^sup>4 - 2\<^sup>9\<^sup>7\<^sup>0\<close>, gives an object
  with \<open>h = (zf - z0) / N\<close>, where \<open>h\<close> is positive exactly when \<open>N\<close> is.
\<close>

theorem pfr_init_result:
  "(n = 0 \<longrightarrow> pfr_init n = Inl ZeroDivisionError) \<and>
   (n \<noteq> 0 \<and> \<bar>n\<bar> < 2 ^ 1024 - 2 ^ 970 \<longrightarrow>
     (\<exists>p. pfr_init n = Inr p \<and> N p = n \<and> vz p = 1 \<and> z0 p = 0 \<and> zf p = 1 \<and>
       h p = (zf p - z0 p) / real_of_int (N p) \<and> (0 < h p \<longleftrightarrow> 0 < n)))"
  by (simp add: pfr_init_def get_h_def py_div_def)

text \<open>The failing size \<open>0\<close> and the size \<open>2\<close>.\<close>

theorem pfr_init_result_witness:
  "pfr_init 0 = Inl ZeroDivisionError \<and>
   (\<exists>p. pfr_init 2 = Inr p \<and> N p = 2 \<and> vz p = 1 \<and> z0 p = 0 \<and> zf p = 1 \<and>
       h p = (zf p - z0 p) / real_of_int (N p) \<and> 0 < h p)"
  using pfr_init_result [of 0] pfr_init_result [of 2] by simp

text \<open>
  C5 (as stated, refuted). The step \<open>h\<close> is an attribute assigned once, in the
  constructor. After \<^verbatim>\<open>par = pfr(20); par.N = 10\<close> the stored \<open>h\<close> is still \<open>1/20\<close>, and
  \<^verbatim>\<open>pfr(-2)\<close> stores the negative step \<open>-1/2\<close>.
\<close>

theorem pfr_inv_counterexample:
  "pfr_init 20 = Inr \<lparr>D = 1, vz = 1, k = 1, Cf = 1, z0 = 0, zf = 1, N = 20, h = 1 / 20\<rparr> \<and>
   \<not> pfr_inv (\<lparr>D = 1, vz = 1, k = 1, Cf = 1, z0 = 0, zf = 1, N = 20, h = 1 / 20\<rparr>\<lparr>N := 10\<rparr>) \<and>
   pfr_init (- 2) = Inr \<lparr>D = 1, vz = 1, k = 1, Cf = 1, z0 = 0, zf = 1, N = - 2, h = - (1 / 2)\<rparr> \<and>
   \<not> pfr_inv \<lparr>D = 1, vz = 1, k = 1, Cf = 1, z0 = 0, zf = 1, N = - 2, h = - (1 / 2)\<rparr>"
  by (simp add: pfr_init_def get_h_def py_div_def pfr_inv_def)

text \<open>
  C5 (amended). The object returned by \<^verbatim>\<open>pfr(N)\<close> for a positive \<open>N\<close> satisfies
  \<open>h = (zf - z0) / N\<close> with \<open>h > 0\<close>, and \<^verbatim>\<open>get_h()\<close> on it returns the stored \<open>h\<close>.
\<close>

theorem pfr_inv_after_init:
  "0 < n \<Longrightarrow> \<exists>p. pfr_init n = Inr p \<and> pfr_inv p \<and> get_h p = Inr (h p)"
  by (simp add: pfr_init_def get_h_def py_div_def pfr_inv_def)

theorem pfr_inv_after_init_witness:
  "(0::int) < 20 \<and> (\<exists>p. pfr_init 20 = Inr p \<and> pfr_inv p \<and> get_h p = Inr (h p))"
  using pfr_inv_after_init [of 20] by simp

subsection \<open>The loop and the bulk expression compute the same rows\<close>

lemma np_get_in_range:
  "0 \<le> i \<Longrightarrow> i < int (length xs) \<Longrightarrow> np_get xs i = Inr (xs ! nat i)"
  by (simp add: np_get_def)

lemma np_set_in_range:
  "0 \<le> i \<Longrightarrow> i < int (length xs) \<Longrightarrow> np_set xs i v = Inr (xs[nat i := v])"
  by (simp add: np_set_def)

lemma pfr_loop_upto:
  "length Ci = length res \<Longrightarrow> length dCi = length res \<Longrightarrow> 1 \<le> a \<Longrightarrow> b \<le> int (length res) - 2 \<Longrightarrow>
   pfr_loop par aux2 aux3 Ci dCi [a..b] res = Inr (rows_between par aux2 aux3 Ci dCi a b res)"
proof (induction a b arbitrary: res rule: upto.induct)
  case (1 i j)
  show ?case
  proof (cases "i \<le> j")
    case False
    then have "[i..j] = []" by simp
    moreover from False have "rows_between par aux2 aux3 Ci dCi i j res = res"
      by (auto simp: rows_between_def intro: nth_equalityI)
    ultimately show ?thesis by simp
  next
    case True
    then have up: "[i..j] = i # [i + 1..j]" by (simp add: upto_rec1)
    let ?v = "loop_row par aux2 aux3 Ci dCi (nat i)"
    let ?res = "res[nat i := ?v]"
    have len: "length Ci = length ?res" "length dCi = length ?res" "1 \<le> i + 1"
      "j \<le> int (length ?res) - 2"
      using "1.prems" by simp_all
    have ih: "pfr_loop par aux2 aux3 Ci dCi [i + 1..j] ?res
        = Inr (rows_between par aux2 aux3 Ci dCi (i + 1) j ?res)"
      using "1.IH" [OF True len] .
    have rd: "np_get Ci (i + 1) = Inr (Ci ! (nat i + 1))" "np_get Ci i = Inr (Ci ! nat i)"
      "np_get Ci (i - 1) = Inr (Ci ! (nat i - 1))" "np_get dCi i = Inr (dCi ! nat i)"
      using "1.prems" True by (simp_all add: np_get_in_range nat_add_distrib nat_diff_distrib)
    have wr: "np_set res i v = Inr (res[nat i := v])" for v
      using "1.prems" True by (simp add: np_set_in_range)
    have step: "pfr_loop par aux2 aux3 Ci dCi [i..j] res
        = pfr_loop par aux2 aux3 Ci dCi [i + 1..j] ?res"
      by (simp add: up rd wr loop_row_def Let_def)
    have "rows_between par aux2 aux3 Ci dCi (i + 1) j ?res
        = rows_between par aux2 aux3 Ci dCi i j res"
      using "1.prems" True
      by (auto simp: rows_between_def nth_list_update intro!: nth_equalityI)
    with step ih show ?thesis by simp
  qed
qed

lemma np_slice_from2: "2 \<le> length xs \<Longrightarrow> np_slice xs (Some 2) None = drop 2 xs"
  by (simp add: np_slice_def slice_start_def slice_stop_def slice_bound_def)

lemma np_slice_inner:
  "2 \<le> length xs \<Longrightarrow> np_slice xs (Some 1) (Some (- 1)) = take (length xs - 2) (drop 1 xs)"
  by (simp add: np_slice_def slice_start_def slice_stop_def slice_bound_def nat_diff_distrib
      numeral_2_eq_2)

lemma np_slice_upto2:
  "2 \<le> length xs \<Longrightarrow> np_slice xs (Some 0) (Some (- 2)) = take (length xs - 2) xs"
  by (simp add: np_slice_def slice_start_def slice_stop_def slice_bound_def nat_diff_distrib)

lemma np_binop_same_length:
  "length xs = length ys \<Longrightarrow> np_binop f xs ys = Inr (map2 f xs ys)"
  by (simp add: np_binop_def)

lemma np_set_slice_inner:
  "2 \<le> length xs \<Longrightarrow> length vs = length xs - 2 \<Longrightarrow>
   np_set_slice xs (Some 1) (Some (- 1)) vs = Inr (take 1 xs @ vs @ drop (length xs - 1) xs)"
proof -
  assume n: "2 \<le> length xs" and vs: "length vs = length xs - 2"
  have lo: "slice_start (length xs) (Some 1) = 1"
    using n by (simp add: slice_start_def slice_bound_def)
  have hi: "slice_stop (length xs) (Some (- 1)) = length xs - 1"
    using n by (simp add: slice_stop_def slice_bound_def nat_diff_distrib)
  have len: "length xs - 1 - 1 = length xs - 2" "1 + (length xs - 2) = length xs - 1"
    using n by simp_all
  show ?thesis
    unfolding np_set_slice_def Let_def lo hi len using vs by simp
qed

lemma nth_sandwich:
  assumes "2 \<le> length xs" "length ms = length xs - 2" "j < length xs"
  shows "(take 1 xs @ ms @ drop (length xs - 1) xs) ! j
    = (if j = 0 then xs ! 0 else if j < length xs - 1 then ms ! (j - 1) else xs ! j)"
proof -
  have t: "length (take 1 xs) = 1" using assms by simp
  have shift: "(take 1 xs @ ys) ! i = ys ! (i - 1)" if "1 \<le> i" for ys i
    unfolding nth_append t using that by simp
  consider "j = 0" | "1 \<le> j" "j < length xs - 1" | "j = length xs - 1" "1 \<le> j"
    using assms by linarith
  then show ?thesis
  proof cases
    case 1
    then show ?thesis using assms by (simp add: nth_append)
  next
    case 2
    have "(take 1 xs @ ms @ drop (length xs - 1) xs) ! j = (ms @ drop (length xs - 1) xs) ! (j - 1)"
      using 2(1) by (rule shift)
    also have "\<dots> = ms ! (j - 1)"
    proof -
      have "j - 1 < length ms" using 2 assms by arith
      then show ?thesis by (simp add: nth_append)
    qed
    finally show ?thesis using 2 by simp
  next
    case 3
    have "(take 1 xs @ ms @ drop (length xs - 1) xs) ! j = (ms @ drop (length xs - 1) xs) ! (j - 1)"
      using 3(2) by (rule shift)
    also have "\<dots> = drop (length xs - 1) xs ! (j - 1 - length ms)"
    proof -
      have "\<not> j - 1 < length ms" using 3 assms by arith
      then show ?thesis by (simp add: nth_append)
    qed
    also have "\<dots> = xs ! j"
    proof -
      have "j - 1 - length ms = 0" "length xs - 1 \<le> length xs" using 3 assms by arith+
      then show ?thesis using 3 by simp
    qed
    finally show ?thesis using 3 by simp
  qed
qed

lemma pfr_bulk_rows:
  assumes "2 \<le> length Ci" "length dCi = length Ci" "length res = length Ci"
  shows "pfr_bulk par aux2 aux3 Ci dCi res
    = Inr (take 1 res @ bulk_rows par aux2 aux3 Ci dCi @ drop (length res - 1) res)"
proof -
  let ?n = "length Ci"
  let ?A = "drop 2 Ci" and ?B = "take (?n - 2) (drop 1 Ci)" and ?C = "take (?n - 2) Ci"
  let ?E = "take (?n - 2) (drop 1 dCi)"
  have lens: "length ?A = ?n - 2" "length ?B = ?n - 2" "length ?C = ?n - 2" "length ?E = ?n - 2"
    using assms by simp_all
  let ?a = "map2 (-) ?A (np_scale 2 ?B)"
  let ?b = "map2 (+) ?a ?C"
  let ?c = "map2 (-) ?A ?C"
  let ?tt2 = "map2 (+) (np_scale (- aux3) ?c) (np_scale (k par) ?B)"
  let ?s = "map2 (+) (np_scale aux2 ?b) ?tt2"
  let ?r = "map2 (-) ?s ?E"
  have r_len: "length ?r = ?n - 2"
    using lens by (simp add: np_scale_def)
  have r_nth: "?r ! i = loop_row par aux2 aux3 Ci dCi (i + 1)" if "i < ?n - 2" for i
    using that assms by (simp add: np_scale_def loop_row_def add.commute)
  have r_eq: "?r = bulk_rows par aux2 aux3 Ci dCi"
  proof (rule nth_equalityI)
    show "length ?r = length (bulk_rows par aux2 aux3 Ci dCi)"
      unfolding r_len by (simp add: bulk_rows_def)
  next
    fix i assume "i < length ?r"
    then have i: "i < ?n - 2" unfolding r_len .
    then show "?r ! i = bulk_rows par aux2 aux3 Ci dCi ! i"
      unfolding r_nth [OF i] by (simp add: bulk_rows_def)
  qed
  have "pfr_bulk par aux2 aux3 Ci dCi res = np_set_slice res (Some 1) (Some (- 1)) ?r"
    unfolding pfr_bulk_def Let_def
    using assms lens
    by (simp add: np_slice_from2 np_slice_inner np_slice_upto2 np_binop_same_length np_scale_def)
  also have "\<dots> = Inr (take 1 res @ ?r @ drop (length res - 1) res)"
  proof (rule np_set_slice_inner)
    show "2 \<le> length res" using assms by simp
    show "length ?r = length res - 2" unfolding r_len using assms by simp
  qed
  finally show ?thesis by (simp only: r_eq)
qed

lemma bulk_rows_between:
  assumes "2 \<le> length Ci" "length res = length Ci"
  shows "take 1 res @ bulk_rows par aux2 aux3 Ci dCi @ drop (length res - 1) res
    = rows_between par aux2 aux3 Ci dCi 1 (int (length res) - 2) res"
proof (rule nth_equalityI)
  show "length (take 1 res @ bulk_rows par aux2 aux3 Ci dCi @ drop (length res - 1) res)
      = length (rows_between par aux2 aux3 Ci dCi 1 (int (length res) - 2) res)"
    using assms by (simp add: bulk_rows_def rows_between_def)
next
  fix j
  assume "j < length (take 1 res @ bulk_rows par aux2 aux3 Ci dCi @ drop (length res - 1) res)"
  then have j: "j < length res"
    using assms by (simp add: bulk_rows_def)
  have ms: "length (bulk_rows par aux2 aux3 Ci dCi) = length res - 2"
    using assms by (simp add: bulk_rows_def)
  have n: "2 \<le> length res" using assms by simp
  show "(take 1 res @ bulk_rows par aux2 aux3 Ci dCi @ drop (length res - 1) res) ! j
      = rows_between par aux2 aux3 Ci dCi 1 (int (length res) - 2) res ! j"
    unfolding nth_sandwich [OF n ms j]
    using j assms by (auto simp: rows_between_def bulk_rows_def)
qed

lemma loop_eq_bulk:
  assumes "2 \<le> length Ci" "length dCi = length Ci" "length res = length Ci"
  shows "pfr_loop par aux2 aux3 Ci dCi (np_arange 1 (int (length Ci) - 1)) res
    = pfr_bulk par aux2 aux3 Ci dCi res"
proof -
  have "pfr_loop par aux2 aux3 Ci dCi [1..int (length res) - 2] res
      = Inr (rows_between par aux2 aux3 Ci dCi 1 (int (length res) - 2) res)"
    using assms by (intro pfr_loop_upto) simp_all
  moreover have "np_arange 1 (int (length Ci) - 1) = [1..int (length res) - 2]"
    using assms by (simp add: np_arange_def)
  ultimately show ?thesis
    unfolding pfr_bulk_rows [OF assms] bulk_rows_between [OF assms(1,3)] by simp
qed

subsection \<open>The kernels in closed form\<close>

lemma sandwich_update:
  assumes "2 \<le> length xs" "length ms = length xs - 2"
  shows "(take 1 (xs[0 := a]) @ ms @ drop (length xs - 1) (xs[0 := a]))[length xs - 1 := b]
    = a # ms @ [b]"
proof (rule nth_equalityI)
  show "length ((take 1 (xs[0 := a]) @ ms @ drop (length xs - 1) (xs[0 := a]))[length xs - 1 := b])
      = length (a # ms @ [b])"
    using assms by simp
next
  fix j
  assume "j < length ((take 1 (xs[0 := a]) @ ms @ drop (length xs - 1) (xs[0 := a]))[length xs - 1 := b])"
  then have j: "j < length xs" using assms by simp
  let ?ys = "xs[0 := a]"
  have ys: "2 \<le> length ?ys" "length ms = length ?ys - 2" "j < length ?ys"
    using assms j by simp_all
  have mid: "(take 1 ?ys @ ms @ drop (length ?ys - 1) ?ys) ! j
      = (if j = 0 then ?ys ! 0 else if j < length ?ys - 1 then ms ! (j - 1) else ?ys ! j)"
    by (rule nth_sandwich [OF ys])
  have len: "length (take 1 ?ys @ ms @ drop (length ?ys - 1) ?ys) = length xs"
    using assms by simp
  consider "j = 0" | "1 \<le> j" "j < length xs - 1" | "j = length xs - 1" "1 \<le> j"
    using j by linarith
  then show "(take 1 ?ys @ ms @ drop (length xs - 1) ?ys)[length xs - 1 := b] ! j
      = (a # ms @ [b]) ! j"
  proof cases
    case 1
    then have "(take 1 ?ys @ ms @ drop (length xs - 1) ?ys)[length xs - 1 := b] ! j
        = (take 1 ?ys @ ms @ drop (length ?ys - 1) ?ys) ! j"
      using assms by simp
    moreover have "0 < length xs" using assms by linarith
    ultimately show ?thesis unfolding mid using 1 by simp
  next
    case 2
    then have "(take 1 ?ys @ ms @ drop (length xs - 1) ?ys)[length xs - 1 := b] ! j
        = (take 1 ?ys @ ms @ drop (length ?ys - 1) ?ys) ! j"
      by simp
    moreover have "j - 1 < length ms" using 2 assms by arith
    ultimately show ?thesis unfolding mid using 2 by (simp add: nth_append nth_Cons')
  next
    case 3
    then have "(take 1 ?ys @ ms @ drop (length xs - 1) ?ys)[length xs - 1 := b] ! j = b"
      using len by simp
    moreover have jm: "j - 1 = length ms" using 3 assms by arith
    moreover have "(a # ms @ [b]) ! j = (ms @ [b]) ! (j - 1)"
      using 3(2) by (simp add: nth_Cons')
    ultimately show ?thesis by (simp only: jm nth_append_length)
  qed
qed

lemma final_rows:
  assumes "2 \<le> length Ci" "length res = length Ci"
  shows "(rows_between par aux2 aux3 Ci dCi 1 (int (length Ci) - 2) (res[0 := v]))[length Ci - 1 := w]
    = v # bulk_rows par aux2 aux3 Ci dCi @ [w]"
proof -
  let ?ys = "res[0 := v]"
  have ys: "length ?ys = length Ci" using assms by simp
  have ms: "length (bulk_rows par aux2 aux3 Ci dCi) = length res - 2"
    using assms by (simp add: bulk_rows_def)
  have "rows_between par aux2 aux3 Ci dCi 1 (int (length ?ys) - 2) ?ys
      = take 1 ?ys @ bulk_rows par aux2 aux3 Ci dCi @ drop (length ?ys - 1) ?ys"
    by (rule bulk_rows_between [OF assms(1) ys, symmetric])
  then have "(rows_between par aux2 aux3 Ci dCi 1 (int (length Ci) - 2) ?ys)[length Ci - 1 := w]
      = (take 1 ?ys @ bulk_rows par aux2 aux3 Ci dCi @ drop (length res - 1) ?ys)[length res - 1 := w]"
    using assms by simp
  also have "\<dots> = v # bulk_rows par aux2 aux3 Ci dCi @ [w]"
    using assms by (intro sandwich_update ms) simp
  finally show ?thesis .
qed

lemma model_pfr_value:
  assumes "2 \<le> N par" "int (length y) = N par" "length yp = length y" "length res = length y"
  shows "model_pfr t y yp par res = kernel_value par y yp"
proof -
  have n: "2 \<le> length y" using assms by linarith
  have Nn: "N par = int (length y)" using assms by simp
  have idx: "nat (int (length y) - 1) = length y - 1" "nat (int (length y) - 2) = length y - 2"
    using n by (simp_all add: nat_diff_distrib)
  have rd: "np_get y 0 = Inr (y ! 0)" "np_get y 1 = Inr (y ! 1)" "np_get yp 0 = Inr (yp ! 0)"
    "np_get y (int (length y) - 1) = Inr (y ! (length y - 1))"
    "np_get y (int (length y) - 2) = Inr (y ! (length y - 2))"
    "np_get yp (int (length y) - 1) = Inr (yp ! (length y - 1))"
    using n assms(3) by (auto simp: np_get_def idx)
  have pos: "0 < length res" using n assms(4) by linarith
  have wr0: "np_set res 0 v = Inr (res[0 := v])" for v
    using pos by (simp add: np_set_def)
  have loop: "pfr_loop par aux2 aux3 y yp (np_arange 1 (int (length y) - 1)) (res[0 := v])
      = Inr (rows_between par aux2 aux3 y yp 1 (int (length y) - 2) (res[0 := v]))" for aux2 aux3 v
  proof -
    have "pfr_loop par aux2 aux3 y yp [1..int (length (res[0 := v])) - 2] (res[0 := v])
      = Inr (rows_between par aux2 aux3 y yp 1 (int (length (res[0 := v])) - 2) (res[0 := v]))"
      using assms by (intro pfr_loop_upto) simp_all
    then show ?thesis using assms by (simp add: np_arange_def)
  qed
  have wrN: "np_set (rows_between par aux2 aux3 y yp 1 (int (length y) - 2) (res[0 := v]))
        (int (length y) - 1) w
      = Inr (v # bulk_rows par aux2 aux3 y yp @ [w])" for aux2 aux3 v w
  proof -
    have "np_set (rows_between par aux2 aux3 y yp 1 (int (length y) - 2) (res[0 := v]))
        (int (length y) - 1) w
      = Inr ((rows_between par aux2 aux3 y yp 1 (int (length y) - 2) (res[0 := v]))
              [nat (int (length y) - 1) := w])"
    proof (rule np_set_in_range)
      show "0 \<le> int (length y) - 1" using n by linarith
      show "int (length y) - 1
          < int (length (rows_between par aux2 aux3 y yp 1 (int (length y) - 2) (res[0 := v])))"
        using assms(4) pos by (simp add: rows_between_def)
    qed
    then show ?thesis
      unfolding idx using final_rows [OF n assms(4)] by simp
  qed
  show ?thesis
    unfolding model_pfr_def kernel_value_def inlet_ghost_def bindE_assoc Nn
    by (simp add: rd wr0 loop wrN stencil_rows_def py_div_def)
qed

lemma bulk_then_last:
  assumes "2 \<le> length y" "length yp = length y" "length res = length y"
  shows "pfr_bulk par aux2 aux3 y yp (res[0 := v])
      = Inr (take 1 (res[0 := v]) @ bulk_rows par aux2 aux3 y yp @ drop (length y - 1) (res[0 := v]))"
    and "np_set (take 1 (res[0 := v]) @ bulk_rows par aux2 aux3 y yp @ drop (length y - 1) (res[0 := v]))
          (int (length y) - 1) w
      = Inr (v # bulk_rows par aux2 aux3 y yp @ [w])"
proof -
  let ?ys = "res[0 := v]"
  let ?B = "take 1 ?ys @ bulk_rows par aux2 aux3 y yp @ drop (length y - 1) ?ys"
  have ys: "length ?ys = length y" using assms by simp
  show "pfr_bulk par aux2 aux3 y yp ?ys = Inr ?B"
    using pfr_bulk_rows [OF assms(1,2) ys, of par aux2 aux3] by (simp only: ys)
  have ms: "length (bulk_rows par aux2 aux3 y yp) = length res - 2"
    using assms by (simp add: bulk_rows_def)
  have res2: "2 \<le> length res" using assms by simp
  have lenB: "length ?B = length y"
    using assms ms by simp
  have idx: "nat (int (length y) - 1) = length y - 1"
    using assms by (simp add: nat_diff_distrib)
  have "np_set ?B (int (length y) - 1) w = Inr (?B[nat (int (length y) - 1) := w])"
  proof (rule np_set_in_range)
    show "0 \<le> int (length y) - 1" using assms by linarith
    show "int (length y) - 1 < int (length ?B)" unfolding lenB by simp
  qed
  also have "?B[nat (int (length y) - 1) := w] = v # bulk_rows par aux2 aux3 y yp @ [w]"
    unfolding idx using sandwich_update [OF res2 ms, of v w] assms(3) by simp
  finally show "np_set ?B (int (length y) - 1) w = Inr (v # bulk_rows par aux2 aux3 y yp @ [w])" .
qed

lemma bulk_then_last_bind:
  assumes "2 \<le> length y" "length yp = length y" "length res = length y"
  shows "bindE (pfr_bulk par aux2 aux3 y yp (res[0 := v]))
           (\<lambda>r. bindE (np_set r (int (length y) - 1) w) g)
      = g (v # bulk_rows par aux2 aux3 y yp @ [w])"
  by (simp only: bulk_then_last [OF assms] bindE_Inr)

lemma kernel_reads:
  assumes "2 \<le> length y" "length yp = length y"
  shows "np_get y 0 = Inr (y ! 0)" "np_get y 1 = Inr (y ! 1)" "np_get yp 0 = Inr (yp ! 0)"
    "np_get y (int (length y) - 1) = Inr (y ! (length y - 1))"
    "np_get y (int (length y) - 2) = Inr (y ! (length y - 2))"
    "np_get yp (int (length y) - 1) = Inr (yp ! (length y - 1))"
proof -
  have idx: "nat (int (length y) - 1) = length y - 1" "nat (int (length y) - 2) = length y - 2"
    using assms by (simp_all add: nat_diff_distrib)
  show "np_get y 0 = Inr (y ! 0)" "np_get y 1 = Inr (y ! 1)" "np_get yp 0 = Inr (yp ! 0)"
    "np_get y (int (length y) - 1) = Inr (y ! (length y - 1))"
    "np_get y (int (length y) - 2) = Inr (y ! (length y - 2))"
    "np_get yp (int (length y) - 1) = Inr (yp ! (length y - 1))"
    using assms by (auto simp: np_get_def idx)
qed

lemma model_pfr_np_value:
  assumes "2 \<le> N par" "int (length y) = N par" "length yp = length y" "length res = length y"
  shows "model_pfr_np t y yp par res = kernel_value par y yp"
proof -
  have n: "2 \<le> length y" using assms by linarith
  have Nn: "N par = int (length y)" using assms by simp
  have pos: "0 < length res" using n assms(4) by linarith
  have wr0: "np_set res 0 v = Inr (res[0 := v])" for v
    using pos by (simp add: np_set_def)
  show ?thesis
    unfolding model_pfr_np_def kernel_value_def inlet_ghost_def bindE_assoc Nn
    by (simp add: kernel_reads [OF n assms(3)] wr0 bulk_then_last_bind [OF n assms(3,4)]
        stencil_rows_def py_div_def)
qed

lemma model_pfr_np_no_share_value:
  assumes "2 \<le> N par" "int (length y) = N par" "length yp = length y"
  shows "model_pfr_np_no_share mem t y yp par = kernel_value par y yp"
proof -
  let ?res = "np_empty mem (length y)"
  have n: "2 \<le> length y" using assms by linarith
  have Nn: "N par = int (length y)" using assms by simp
  have len: "length ?res = length y" by (simp add: np_empty_def)
  have pos: "0 < length ?res" using n len by linarith
  have wr0: "np_set ?res 0 v = Inr (?res[0 := v])" for v
    using pos by (simp add: np_set_def)
  show ?thesis
    unfolding model_pfr_np_no_share_def Let_def kernel_value_def inlet_ghost_def bindE_assoc Nn
    by (simp add: kernel_reads [OF n assms(3)] wr0 bulk_then_last_bind [OF n assms(3) len]
        stencil_rows_def py_div_def)
qed

lemma kernel_value_cases:
  "kernel_value par y yp =
     (if vz par * h par = 0 \<or> 1 + D par / (vz par * h par) = 0 then Inl ZeroDivisionError
      else Inr (stencil_rows par
                  (1 / (1 + D par / (vz par * h par)) * (D par / (vz par * h par) * y ! 0 + Cf par))
                  (D par / (h par)\<^sup>2) (vz par / (2 * h par)) y yp, 0))"
  by (auto simp: kernel_value_def py_div_def)

lemma length_stencil_rows:
  "2 \<le> length y \<Longrightarrow> length (stencil_rows par C0 aux2 aux3 y yp) = length y"
  by (simp add: stencil_rows_def bulk_rows_def)

lemma stencil_rows_nth:
  assumes "2 \<le> length C"
  shows "stencil_rows par C0 aux2 aux3 C dC ! 0
      = aux2 * (C ! 1 - 2 * C ! 0 + C0) - aux3 * (C ! 1 - C0) + k par * C ! 0 - dC ! 0"
    and "stencil_rows par C0 aux2 aux3 C dC ! (length C - 1)
      = aux2 * (C ! (length C - 1) - 2 * C ! (length C - 1) + C ! (length C - 2))
        - aux3 * (C ! (length C - 1) - C ! (length C - 2))
        + k par * C ! (length C - 1) - dC ! (length C - 1)"
    and "1 \<le> j \<Longrightarrow> j \<le> length C - 2 \<Longrightarrow>
      stencil_rows par C0 aux2 aux3 C dC ! j = loop_row par aux2 aux3 C dC j"
proof -
  let ?ms = "bulk_rows par aux2 aux3 C dC"
  have ms: "length ?ms = length C - 2" by (simp add: bulk_rows_def)
  show "stencil_rows par C0 aux2 aux3 C dC ! 0
      = aux2 * (C ! 1 - 2 * C ! 0 + C0) - aux3 * (C ! 1 - C0) + k par * C ! 0 - dC ! 0"
    by (simp add: stencil_rows_def)
  have "length C - 1 = Suc (length ?ms)" using assms ms by arith
  then show "stencil_rows par C0 aux2 aux3 C dC ! (length C - 1)
      = aux2 * (C ! (length C - 1) - 2 * C ! (length C - 1) + C ! (length C - 2))
        - aux3 * (C ! (length C - 1) - C ! (length C - 2))
        + k par * C ! (length C - 1) - dC ! (length C - 1)"
    unfolding stencil_rows_def by (simp only: nth_Cons_Suc nth_append_length)
  show "stencil_rows par C0 aux2 aux3 C dC ! j = loop_row par aux2 aux3 C dC j"
    if j1: "1 \<le> j" and j2: "j \<le> length C - 2"
  proof -
    define i where "i = j - 1"
    have i: "j = Suc i" using j1 by (simp add: i_def)
    have "i < length ?ms" using j2 i ms assms by arith
    then have "?ms ! i = loop_row par aux2 aux3 C dC (i + 1)"
      by (simp add: bulk_rows_def)
    moreover have "stencil_rows par C0 aux2 aux3 C dC ! j = ?ms ! i"
      unfolding stencil_rows_def i using \<open>i < length ?ms\<close> by (simp add: nth_append)
    ultimately show ?thesis using i by simp
  qed
qed

subsection \<open>What the set-up function allocates\<close>

lemma pfr_init_pos:
  "0 < n \<Longrightarrow> pfr_init n
     = Inr \<lparr>D = 1, vz = 1, k = 1, Cf = 1, z0 = 0, zf = 1, N = n, h = 1 / real_of_int n\<rparr>"
  by (simp add: pfr_init_def get_h_def py_div_def)

lemma solver_setup_base_pos:
  assumes "0 < n"
  shows "solver_setup_base n hp
    = Inr (length hp + 3,
           hp @ [Pfr \<lparr>D = 1, vz = 1, k = 1, Cf = 1, z0 = 0, zf = 1, N = n, h = 1 / real_of_int n\<rparr>,
                 NdArray [5],
                 NdArray (replicate (nat n) 0),
                 PyList [VRef (length hp + 1), VRef (length hp + 2), VNone, VRef (length hp),
                         VFloat (1 / 10 ^ 6), VFloat (1 / 10 ^ 8)]])"
  using assms by (simp add: solver_setup_base_def pfr_init_pos np_zeros_def new_def)

lemma list_setitem_at:
  assumes "r < length hp" "hp ! r = PyList [a, b, c, d, e, f]"
  shows "list_setitem r 3 v hp = Inr (hp[r := PyList [a, b, c, v, e, f]])"
  using assms by (simp add: list_setitem_def deref_def numeral_3_eq_3)

lemma setups_all_pos:
  assumes "0 < n" "n < 2 ^ 31"
  shows "setups_all n hp
    = Inr ((length hp + 3, (length hp + 4, length hp + 8), length hp + 13),
           hp @ [Pfr \<lparr>D = 1, vz = 1, k = 1, Cf = 1, z0 = 0, zf = 1, N = n, h = 1 / real_of_int n\<rparr>,
                 NdArray [5],
                 NdArray (replicate (nat n) 0),
                 PyList [VRef (length hp + 1), VRef (length hp + 2), VNone, VRef (length hp),
                         VFloat (1 / 10 ^ 6), VFloat (1 / 10 ^ 8)],
                 Pfr_Cython \<lparr>D = 1, vz = 1, k = 1, Cf = 1, z0 = 0, zf = 1, N = n, h = 1 / real_of_int n\<rparr>,
                 Pfr \<lparr>D = 1, vz = 1, k = 1, Cf = 1, z0 = 0, zf = 1, N = n, h = 1 / real_of_int n\<rparr>,
                 NdArray [5],
                 NdArray (replicate (nat n) 0),
                 PyList [VRef (length hp + 6), VRef (length hp + 7), VNone, VNone,
                         VFloat (1 / 10 ^ 6), VFloat (1 / 10 ^ 8)],
                 Numba_PFR \<lparr>D = 1, vz = 1, k = 1, Cf = 1, z0 = 0, zf = 1, N = n, h = 1 / real_of_int n\<rparr>,
                 Pfr \<lparr>D = 1, vz = 1, k = 1, Cf = 1, z0 = 0, zf = 1, N = n, h = 1 / real_of_int n\<rparr>,
                 NdArray [5],
                 NdArray (replicate (nat n) 0),
                 PyList [VRef (length hp + 11), VRef (length hp + 12), VNone, VRef (length hp + 9),
                         VFloat (1 / 10 ^ 6), VFloat (1 / 10 ^ 8)]])"
proof -
  let ?p = "\<lparr>D = 1, vz = 1, k = 1, Cf = 1, z0 = 0, zf = 1, N = n, h = 1 / real_of_int n\<rparr>"
  define hp1 where "hp1 = hp @ [Pfr ?p, NdArray [5], NdArray (replicate (nat n) 0),
      PyList [VRef (length hp + 1), VRef (length hp + 2), VNone, VRef (length hp),
              VFloat (1 / 10 ^ 6), VFloat (1 / 10 ^ 8)]]"
  define hp2 where "hp2 = hp1 @ [Pfr_Cython ?p]"
  define hp3 where "hp3 = hp2 @ [Pfr ?p, NdArray [5], NdArray (replicate (nat n) 0),
      PyList [VRef (length hp2 + 1), VRef (length hp2 + 2), VNone, VRef (length hp2),
              VFloat (1 / 10 ^ 6), VFloat (1 / 10 ^ 8)]]"
  define hp4 where "hp4 = hp3[length hp2 + 3 :=
      PyList [VRef (length hp2 + 1), VRef (length hp2 + 2), VNone, VNone,
              VFloat (1 / 10 ^ 6), VFloat (1 / 10 ^ 8)]]"
  define hp5 where "hp5 = hp4 @ [Numba_PFR ?p]"
  define hp6 where "hp6 = hp5 @ [Pfr ?p, NdArray [5], NdArray (replicate (nat n) 0),
      PyList [VRef (length hp5 + 1), VRef (length hp5 + 2), VNone, VRef (length hp5),
              VFloat (1 / 10 ^ 6), VFloat (1 / 10 ^ 8)]]"
  define hp7 where "hp7 = hp6[length hp5 + 3 :=
      PyList [VRef (length hp5 + 1), VRef (length hp5 + 2), VNone, VRef (length hp4),
              VFloat (1 / 10 ^ 6), VFloat (1 / 10 ^ 8)]]"
  have s1: "solver_setup_base n hp = Inr (length hp + 3, hp1)"
    unfolding hp1_def using assms(1) by (rule solver_setup_base_pos)
  have c: "Pfr_Cython_init n = Inr ?p"
    using assms by (simp add: Pfr_Cython_init_def pfr_init_pos)
  have s2: "solver_setup_base n hp2 = Inr (length hp2 + 3, hp3)"
    unfolding hp3_def using assms(1) by (rule solver_setup_base_pos)
  have w1: "list_setitem (length hp2 + 3) 3 VNone hp3 = Inr hp4"
    unfolding hp4_def by (rule list_setitem_at) (simp_all add: hp3_def nth_append)
  have nb: "Numba_PFR_init n = Inr ?p"
    using assms by (simp add: Numba_PFR_init_def pfr_init_pos)
  have s3: "solver_setup_base n hp5 = Inr (length hp5 + 3, hp6)"
    unfolding hp6_def using assms(1) by (rule solver_setup_base_pos)
  have w2: "list_setitem (length hp5 + 3) 3 (VRef (length hp4)) hp6 = Inr hp7"
    unfolding hp7_def by (rule list_setitem_at) (simp_all add: hp6_def nth_append)
  have run: "setups_all n hp
      = Inr ((length hp + 3, (length hp1, length hp2 + 3), length hp5 + 3), hp7)"
    unfolding setups_all_def by (simp add: s1 c new_def hp2_def [symmetric] s2 w1 nb
        hp5_def [symmetric] s3 w2)
  have lens: "length hp1 = length hp + 4" "length hp2 = length hp + 5"
    "length hp4 = length hp + 9" "length hp5 = length hp + 10"
    by (simp_all add: hp1_def hp2_def hp3_def hp4_def hp5_def)
  have "hp7 = hp @ [Pfr ?p, NdArray [5], NdArray (replicate (nat n) 0),
                 PyList [VRef (length hp + 1), VRef (length hp + 2), VNone, VRef (length hp),
                         VFloat (1 / 10 ^ 6), VFloat (1 / 10 ^ 8)],
                 Pfr_Cython ?p,
                 Pfr ?p, NdArray [5], NdArray (replicate (nat n) 0),
                 PyList [VRef (length hp + 6), VRef (length hp + 7), VNone, VNone,
                         VFloat (1 / 10 ^ 6), VFloat (1 / 10 ^ 8)],
                 Numba_PFR ?p,
                 Pfr ?p, NdArray [5], NdArray (replicate (nat n) 0),
                 PyList [VRef (length hp + 11), VRef (length hp + 12), VNone, VRef (length hp + 9),
                         VFloat (1 / 10 ^ 6), VFloat (1 / 10 ^ 8)]]"
    unfolding hp7_def hp6_def lens
    unfolding hp5_def hp4_def hp3_def lens
    unfolding hp2_def hp1_def
    by (simp add: list_update_append)
  with run lens show ?thesis by simp
qed

lemma deref_append_new:
  "deref (hp @ objs) (length hp + i) = (if i < length objs then Some (objs ! i) else None)"
  by (simp add: deref_def nth_append)

lemma setups_all_heap:
  assumes "0 < n" "n < 2 ^ 31"
  shows "setups_all n hp
    = Inr ((length hp + 3, (length hp + 4, length hp + 8), length hp + 13),
           hp @ setup_heap n (length hp))"
  unfolding setup_heap_def using assms by (rule setups_all_pos)

lemma setup_heap_objs:
  fixes hp :: heap and n :: int
  defines "s \<equiv> (length hp + 3, (length hp + 4, length hp + 8), length hp + 13)"
  defines "H \<equiv> hp @ setup_heap n (length hp)"
  shows "runner_objs H Run_py s = {length hp, length hp + 1, length hp + 2, length hp + 3}"
    and "runner_objs H Run_np s = {length hp, length hp + 1, length hp + 2, length hp + 3}"
    and "runner_objs H Run_cy_naive s = {length hp, length hp + 1, length hp + 2, length hp + 3}"
    and "runner_objs H Run_np_no_share s = {length hp, length hp + 1, length hp + 2, length hp + 3}"
    and "runner_objs H Run_cy_typed s = {length hp + 4, length hp + 6, length hp + 7, length hp + 8}"
    and "runner_objs H Run_numba s = {length hp + 9, length hp + 11, length hp + 12, length hp + 13}"
  unfolding s_def H_def runner_objs_def list_items_def
  by (auto simp: deref_append_new setup_heap_def)

lemma setup_heap_content:
  fixes hp :: heap and n :: int
  defines "s \<equiv> (length hp + 3, (length hp + 4, length hp + 8), length hp + 13)"
  defines "H \<equiv> hp @ setup_heap n (length hp)"
  shows "runner_par H r s
      = Some \<lparr>D = 1, vz = 1, k = 1, Cf = 1, z0 = 0, zf = 1, N = n, h = 1 / real_of_int n\<rparr>"
    and "runner_y0 H r s = Some (replicate (nat n) 0)"
proof -
  have par0: "fields_at H (length hp + 0)
      = Some \<lparr>D = 1, vz = 1, k = 1, Cf = 1, z0 = 0, zf = 1, N = n, h = 1 / real_of_int n\<rparr>"
    unfolding H_def fields_at_def deref_append_new by (simp add: setup_heap_def)
  have par4: "fields_at H (length hp + 4)
      = Some \<lparr>D = 1, vz = 1, k = 1, Cf = 1, z0 = 0, zf = 1, N = n, h = 1 / real_of_int n\<rparr>"
    unfolding H_def fields_at_def deref_append_new by (simp add: setup_heap_def)
  have par9: "fields_at H (length hp + 9)
      = Some \<lparr>D = 1, vz = 1, k = 1, Cf = 1, z0 = 0, zf = 1, N = n, h = 1 / real_of_int n\<rparr>"
    unfolding H_def fields_at_def deref_append_new by (simp add: setup_heap_def)
  have ls: "list_items H (length hp + 3)
      = [VRef (length hp + 1), VRef (length hp + 2), VNone, VRef (length hp),
         VFloat (1 / 10 ^ 6), VFloat (1 / 10 ^ 8)]"
    "list_items H (length hp + 8)
      = [VRef (length hp + 6), VRef (length hp + 7), VNone, VNone,
         VFloat (1 / 10 ^ 6), VFloat (1 / 10 ^ 8)]"
    "list_items H (length hp + 13)
      = [VRef (length hp + 11), VRef (length hp + 12), VNone, VRef (length hp + 9),
         VFloat (1 / 10 ^ 6), VFloat (1 / 10 ^ 8)]"
    unfolding H_def list_items_def deref_append_new by (simp_all add: setup_heap_def)
  have ys: "deref H (length hp + 2) = Some (NdArray (replicate (nat n) 0))"
    "deref H (length hp + 7) = Some (NdArray (replicate (nat n) 0))"
    "deref H (length hp + 12) = Some (NdArray (replicate (nat n) 0))"
    unfolding H_def deref_append_new by (simp_all add: setup_heap_def)
  show "runner_par H r s
      = Some \<lparr>D = 1, vz = 1, k = 1, Cf = 1, z0 = 0, zf = 1, N = n, h = 1 / real_of_int n\<rparr>"
    unfolding s_def runner_par_def using par0 par4 par9
    by (cases r) (simp_all add: ls)
  show "runner_y0 H r s = Some (replicate (nat n) 0)"
    unfolding s_def runner_y0_def using ys
    by (cases r) (simp_all add: ls)
qed

subsection \<open>Agreement of the kernels\<close>

text \<open>
  C1. For \<open>N \<ge> 2\<close> and vectors \<open>C\<close>, \<open>dC\<close> and a residual buffer of length \<open>N\<close>, the
  element-wise loop kernel and the bulk-array kernel return the same result for the same
  \<open>t\<close>, parameters and inputs; whenever the divisions are defined, that result is a
  residual vector of length \<open>N\<close> with status \<open>0\<close>.
\<close>

theorem kernels_agree:
  assumes "2 \<le> N par" "int (length C) = N par" "length dC = length C" "length res = length C"
  shows "model_pfr t C dC par res = model_pfr_np t C dC par res \<and>
    (vz par * h par \<noteq> 0 \<longrightarrow> 1 + D par / (vz par * h par) \<noteq> 0 \<longrightarrow>
      (\<exists>R. model_pfr t C dC par res = Inr (R, 0) \<and> length R = length C))"
proof -
  have n: "2 \<le> length C" using assms by linarith
  have "model_pfr t C dC par res = kernel_value par C dC"
    using assms by (rule model_pfr_value)
  moreover have "model_pfr_np t C dC par res = kernel_value par C dC"
    using assms by (rule model_pfr_np_value)
  ultimately show ?thesis
    using n by (simp add: kernel_value_cases length_stencil_rows)
qed

text \<open>The two kernels on a grid of three nodes.\<close>

theorem kernels_agree_witness:
  "model_pfr 0 [1, 2, 4] [0, 1, 0] \<lparr>D = 1, vz = 1, k = 1, Cf = 1, z0 = 0, zf = 1, N = 3, h = 1 / 3\<rparr> [7, 7, 7]
   = model_pfr_np 0 [1, 2, 4] [0, 1, 0] \<lparr>D = 1, vz = 1, k = 1, Cf = 1, z0 = 0, zf = 1, N = 3, h = 1 / 3\<rparr> [7, 7, 7] \<and>
   (\<exists>R. model_pfr 0 [1, 2, 4] [0, 1, 0] \<lparr>D = 1, vz = 1, k = 1, Cf = 1, z0 = 0, zf = 1, N = 3, h = 1 / 3\<rparr> [7, 7, 7]
      = Inr (R, 0) \<and> length R = length [1, 2, 4 :: real])"
proof -
  let ?P = "\<lparr>D = 1, vz = 1, k = 1, Cf = 1, z0 = 0, zf = 1, N = 3, h = 1 / 3\<rparr>"
  have hyps: "2 \<le> N ?P" "int (length [1, 2, 4 :: real]) = N ?P"
    "length [0, 1, 0 :: real] = length [1, 2, 4 :: real]"
    "length [7, 7, 7 :: real] = length [1, 2, 4 :: real]"
    by simp_all
  have divs: "vz ?P * h ?P \<noteq> 0" "1 + D ?P / (vz ?P * h ?P) \<noteq> 0"
    by simp_all
  from kernels_agree [OF hyps, of 0] divs show ?thesis by blast
qed

text \<open>
  The vectors must have the length \<^verbatim>\<open>par.N\<close>. On longer arrays the loop stops at row
  \<open>N - 2\<close> and the outlet row is row \<open>N - 1\<close>, while the slices run over the whole array.
\<close>

lemma model_pfr_longer_arrays:
  "model_pfr 0 [1, 2, 4, 8, 16] [0, 1, 0, 2, 0]
     \<lparr>D = 1, vz = 1, k = 3, Cf = 1, z0 = 0, zf = 1, N = 3, h = 1 / 3\<rparr> [7, 7, 7, 7, 7]
     = Inr ([21 / 2, 19 / 2, - 9, 7, 7], 0)"
  by (simp add: model_pfr_def inlet_ghost_def py_div_def np_get_def np_set_def np_arange_def
      upto_rec1 power2_eq_square)

lemma model_pfr_np_longer_arrays:
  "model_pfr_np 0 [1, 2, 4, 8, 16] [0, 1, 0, 2, 0]
     \<lparr>D = 1, vz = 1, k = 3, Cf = 1, z0 = 0, zf = 1, N = 3, h = 1 / 3\<rparr> [7, 7, 7, 7, 7]
     = Inr ([21 / 2, 19 / 2, - 9, 40, 7], 0)"
  by (simp add: model_pfr_np_def inlet_ghost_def py_div_def np_get_def np_set_def pfr_bulk_def
      np_slice_def slice_start_def slice_stop_def slice_bound_def np_binop_def np_scale_def
      np_set_slice_def power2_eq_square)

text \<open>
  C7. For \<open>N \<ge> 2\<close> and identical \<open>t\<close>, \<open>C\<close>, \<open>dC\<close> and parameters, the kernel that
  overwrites a caller-supplied buffer and the kernel that allocates its own array return
  the same residual vector, whatever the buffer and the fresh memory held before.
\<close>

theorem no_share_agrees:
  assumes "2 \<le> N par" "int (length C) = N par" "length dC = length C" "length res = length C"
  shows "model_pfr_np_no_share mem t C dC par = model_pfr_np t C dC par res \<and>
    (vz par * h par \<noteq> 0 \<longrightarrow> 1 + D par / (vz par * h par) \<noteq> 0 \<longrightarrow>
      (\<exists>R. model_pfr_np_no_share mem t C dC par = Inr (R, 0) \<and> length R = length C))"
proof -
  have n: "2 \<le> length C" using assms by linarith
  have "model_pfr_np_no_share mem t C dC par = kernel_value par C dC"
    using assms(1-3) by (rule model_pfr_np_no_share_value)
  moreover have "model_pfr_np t C dC par res = kernel_value par C dC"
    using assms by (rule model_pfr_np_value)
  ultimately show ?thesis
    using n by (simp add: kernel_value_cases length_stencil_rows)
qed

text \<open>Both bulk kernels on a grid of three nodes, with different prior buffer contents.\<close>

theorem no_share_agrees_witness:
  "model_pfr_np_no_share (\<lambda>i. 9) 0 [1, 2, 4] [0, 1, 0] \<lparr>D = 1, vz = 1, k = 1, Cf = 1, z0 = 0, zf = 1, N = 3, h = 1 / 3\<rparr>
   = model_pfr_np 0 [1, 2, 4] [0, 1, 0] \<lparr>D = 1, vz = 1, k = 1, Cf = 1, z0 = 0, zf = 1, N = 3, h = 1 / 3\<rparr> [7, 7, 7] \<and>
   (\<exists>R. model_pfr_np_no_share (\<lambda>i. 9) 0 [1, 2, 4] [0, 1, 0] \<lparr>D = 1, vz = 1, k = 1, Cf = 1, z0 = 0, zf = 1, N = 3, h = 1 / 3\<rparr>
      = Inr (R, 0) \<and> length R = length [1, 2, 4 :: real])"
proof -
  let ?P = "\<lparr>D = 1, vz = 1, k = 1, Cf = 1, z0 = 0, zf = 1, N = 3, h = 1 / 3\<rparr>"
  have hyps: "2 \<le> N ?P" "int (length [1, 2, 4 :: real]) = N ?P"
    "length [0, 1, 0 :: real] = length [1, 2, 4 :: real]"
    "length [7, 7, 7 :: real] = length [1, 2, 4 :: real]"
    by simp_all
  have divs: "vz ?P * h ?P \<noteq> 0" "1 + D ?P / (vz ?P * h ?P) \<noteq> 0"
    by simp_all
  from no_share_agrees [OF hyps, of "\<lambda>i. 9" 0] divs show ?thesis by blast
qed

subsection \<open>The stencil\<close>

text \<open>
  C2. For \<open>N \<ge> 2\<close>, \<open>vz > 0\<close>, \<open>h > 0\<close> and vectors of length \<open>N\<close>, the kernel's output
  \<open>R\<close> satisfies, in one-based indices, the stencil formula at every interior row
  \<open>2 \<le> i \<le> N - 1\<close>, the same formula with \<open>C[0]\<close> replaced by the inlet ghost value at
  row \<open>1\<close>, and with \<open>C[N+1]\<close> replaced by \<open>C[N]\<close> at row \<open>N\<close>. The one parameter choice
  for which the inlet ghost value is undefined, \<open>1 + D / (vz * h) = 0\<close>, makes the kernel
  raise \<^verbatim>\<open>ZeroDivisionError\<close> instead of returning.
\<close>

theorem model_pfr_stencil:
  assumes "2 \<le> N par" "int (length C) = N par" "length dC = length C" "length res = length C"
    and "0 < vz par" "0 < h par"
  shows "if 1 + D par / (vz par * h par) = 0
    then model_pfr t C dC par res = Inl ZeroDivisionError
    else (\<exists>R. model_pfr t C dC par res = Inr (R, 0) \<and> length R = length C \<and>
      (\<forall>i. 2 \<le> i \<and> i \<le> length C - 1 \<longrightarrow>
         nth1 R i = spec_stencil par (nth1 C (i - 1)) (nth1 C i) (nth1 C (i + 1)) (nth1 dC i)) \<and>
      nth1 R 1 = spec_stencil par (spec_inlet_C0 par (nth1 C 1)) (nth1 C 1) (nth1 C 2) (nth1 dC 1) \<and>
      nth1 R (length C)
        = spec_stencil par (nth1 C (length C - 1)) (nth1 C (length C)) (nth1 C (length C))
            (nth1 dC (length C)))"
proof (cases "1 + D par / (vz par * h par) = 0")
  case True
  have "model_pfr t C dC par res = kernel_value par C dC"
    using assms(1-4) by (rule model_pfr_value)
  with True show ?thesis by (simp add: kernel_value_cases)
next
  case False
  let ?aux1 = "D par / (vz par * h par)"
  let ?C0 = "1 / (1 + ?aux1) * (?aux1 * C ! 0 + Cf par)"
  let ?aux2 = "D par / (h par)\<^sup>2" and ?aux3 = "vz par / (2 * h par)"
  let ?R = "stencil_rows par ?C0 ?aux2 ?aux3 C dC"
  have n: "2 \<le> length C" using assms by linarith
  have nz: "vz par * h par \<noteq> 0" using assms(5,6) by simp
  have "model_pfr t C dC par res = kernel_value par C dC"
    using assms(1-4) by (rule model_pfr_value)
  then have run: "model_pfr t C dC par res = Inr (?R, 0)"
    using False nz by (simp add: kernel_value_cases)
  have len: "length ?R = length C"
    using n by (rule length_stencil_rows)
  have C0: "?C0 = spec_inlet_C0 par (nth1 C 1)"
    by (simp add: spec_inlet_C0_def nth1_def)
  have inner: "nth1 ?R i = spec_stencil par (nth1 C (i - 1)) (nth1 C i) (nth1 C (i + 1)) (nth1 dC i)"
    if "2 \<le> i \<and> i \<le> length C - 1" for i
  proof -
    define m where "m = i - 2"
    have m: "i = Suc (Suc m)" unfolding m_def using that by arith
    have j: "1 \<le> Suc m" "Suc m \<le> length C - 2" using that m by arith+
    have "nth1 ?R i = loop_row par ?aux2 ?aux3 C dC (Suc m)"
      unfolding nth1_def m using stencil_rows_nth(3) [OF n j] by simp
    then show ?thesis
      by (simp add: m loop_row_def spec_stencil_def nth1_def)
  qed
  have first: "nth1 ?R 1
      = spec_stencil par (spec_inlet_C0 par (nth1 C 1)) (nth1 C 1) (nth1 C 2) (nth1 dC 1)"
    unfolding C0 [symmetric] by (simp add: nth1_def stencil_rows_nth(1) [OF n] spec_stencil_def)
  have last: "nth1 ?R (length C)
      = spec_stencil par (nth1 C (length C - 1)) (nth1 C (length C)) (nth1 C (length C))
          (nth1 dC (length C))"
    unfolding nth1_def stencil_rows_nth(2) [OF n] spec_stencil_def
    by (simp add: numeral_2_eq_2)
  from run len inner first last False show ?thesis by auto
qed

text \<open>The three rows on a grid of three nodes.\<close>

theorem model_pfr_stencil_witness:
  "\<exists>R. model_pfr 0 [1, 2, 4] [0, 1, 0]
         \<lparr>D = 1, vz = 1, k = 1, Cf = 1, z0 = 0, zf = 1, N = 3, h = 1 / 3\<rparr> [7, 7, 7] = Inr (R, 0) \<and>
       length R = 3 \<and> nth1 R 1 = 17 / 2 \<and> nth1 R 2 = 11 / 2 \<and> nth1 R 3 = - 17"
proof -
  let ?P = "\<lparr>D = 1, vz = 1, k = 1, Cf = 1, z0 = 0, zf = 1, N = 3, h = 1 / 3\<rparr>"
  let ?C = "[1, 2, 4 :: real]" and ?dC = "[0, 1, 0 :: real]"
  have hyps: "2 \<le> N ?P" "int (length ?C) = N ?P" "length ?dC = length ?C"
    "length [7, 7, 7 :: real] = length ?C" "0 < vz ?P" "0 < h ?P"
    by simp_all
  have cond: "(1 + D ?P / (vz ?P * h ?P) = 0) = False" by simp
  from model_pfr_stencil [OF hyps, of 0]
  obtain R where R: "model_pfr 0 ?C ?dC ?P [7, 7, 7] = Inr (R, 0)" "length R = length ?C"
    "\<forall>i. 2 \<le> i \<and> i \<le> length ?C - 1 \<longrightarrow>
       nth1 R i = spec_stencil ?P (nth1 ?C (i - 1)) (nth1 ?C i) (nth1 ?C (i + 1)) (nth1 ?dC i)"
    "nth1 R 1 = spec_stencil ?P (spec_inlet_C0 ?P (nth1 ?C 1)) (nth1 ?C 1) (nth1 ?C 2) (nth1 ?dC 1)"
    "nth1 R (length ?C)
      = spec_stencil ?P (nth1 ?C (length ?C - 1)) (nth1 ?C (length ?C)) (nth1 ?C (length ?C))
          (nth1 ?dC (length ?C))"
    unfolding cond if_False by blast
  have "nth1 R 2 = spec_stencil ?P (nth1 ?C (2 - 1)) (nth1 ?C 2) (nth1 ?C (2 + 1)) (nth1 ?dC 2)"
    using R(3) by simp
  then have "nth1 R 2 = 11 / 2"
    by (simp add: spec_stencil_def nth1_def power2_eq_square)
  moreover have "nth1 R 1 = 17 / 2"
    unfolding R(4) by (simp add: spec_stencil_def spec_inlet_C0_def nth1_def power2_eq_square)
  moreover have "nth1 R 3 = - 17"
    using R(5) by (simp add: spec_stencil_def nth1_def power2_eq_square numeral_2_eq_2)
  ultimately show ?thesis using R(1,2) by simp
qed

text \<open>Rounding on the values the inlet closure meets.\<close>

lemma round_even_of_int: "round_even (of_int m) = m"
  by (simp add: round_even_def)

lemma round_even_small: "0 \<le> x \<Longrightarrow> x < 1 / 2 \<Longrightarrow> round_even x = 0"
proof -
  assume x: "0 \<le> x" "x < 1 / 2"
  then have "\<lfloor>x\<rfloor> = 0" by (simp add: floor_eq_iff)
  with x show ?thesis by (simp add: round_even_def)
qed

lemma floor_log2:
  assumes "2 powr of_int e \<le> x" "x < 2 powr of_int (e + 1)"
  shows "\<lfloor>log 2 x\<rfloor> = e"
proof -
  have "0 < (2::real) powr of_int e" by simp
  then have pos: "0 < x" using assms(1) by linarith
  have "of_int e \<le> log 2 x" using assms(1) pos by (simp add: le_log_iff)
  moreover have "log 2 x < of_int (e + 1)" using assms(2) pos by (simp add: log_less_iff)
  ultimately show ?thesis by (simp add: floor_eq_iff)
qed

lemma ulp64_normal:
  assumes "2 powr of_int e \<le> \<bar>x\<bar>" "\<bar>x\<bar> < 2 powr of_int (e + 1)" "- 1022 \<le> e"
  shows "ulp64 x = 2 powr of_int (e - 52)"
  using floor_log2 [OF assms(1,2)] assms(3) by (simp add: ulp64_def max_def)

lemma ulp64_subnormal:
  assumes "x \<noteq> 0" "\<bar>x\<bar> < 2 powr - 1022"
  shows "ulp64 x = 2 powr - 1074"
proof -
  have "log 2 \<bar>x\<bar> < - 1022" using assms by (simp add: log_less_iff)
  then have "\<lfloor>log 2 \<bar>x\<bar>\<rfloor> < - 1022" by linarith
  then show ?thesis by (simp add: ulp64_def max_def)
qed

lemma round64_0: "round64 0 = Fin 0"
  by (simp add: round64_def)

lemma round64_exact:
  assumes "2 powr of_int e \<le> \<bar>x\<bar>" "\<bar>x\<bar> < 2 powr of_int (e + 1)" "- 1022 \<le> e" "e < 1024"
    and "x = of_int m * 2 powr of_int (e - 52)"
  shows "round64 x = Fin x"
proof -
  have q: "ulp64 x = 2 powr of_int (e - 52)" using assms(1-3) by (rule ulp64_normal)
  have "x / ulp64 x = of_int m" unfolding q using assms(5) by simp
  then have r: "of_int (round_even (x / ulp64 x)) * ulp64 x = x"
    unfolding q using assms(5) by (simp add: round_even_of_int)
  have "(2::real) powr of_int (e + 1) \<le> 2 powr of_int 1024"
    using assms(4) by (intro powr_mono) simp_all
  then have "\<bar>x\<bar> < 2 ^ 1024" using assms(2) by (simp add: powr_numeral)
  moreover have "x \<noteq> 0"
  proof
    assume "x = 0"
    then have "2 powr of_int e \<le> (0::real)" using assms(1) by simp
    then show False by (simp add: not_le)
  qed
  ultimately show ?thesis unfolding round64_def r by simp
qed

lemma round64_1: "round64 1 = Fin 1"
  by (rule round64_exact [where e = 0 and m = "2 ^ 52"]) (simp_all add: powr_neg_numeral)

lemma is_double_7: "is_double 7"
  unfolding is_double_def
  by (rule round64_exact [where e = 2 and m = "7 * 2 ^ 50"]) (simp_all add: powr_neg_numeral powr_numeral)

lemma is_double_tiny: "is_double (1 / 2 ^ 600)"
  unfolding is_double_def
  by (rule round64_exact [where e = "- 600" and m = "2 ^ 52"])
     (simp_all add: powr_neg_numeral powr_numeral)

lemma round64_underflow:
  assumes "\<bar>x\<bar> \<le> 1 / 2 ^ 1075"
  shows "round64 x = Fin 0"
proof (cases "x = 0")
  case True
  then show ?thesis by (simp add: round64_0)
next
  case False
  have small: "\<bar>x\<bar> < 2 powr - 1022"
  proof -
    have "(1::real) / 2 ^ 1075 < 1 / 2 ^ 1022" by simp
    then show ?thesis using assms by (simp add: powr_neg_numeral)
  qed
  have q: "ulp64 x = 1 / 2 ^ 1074"
    using ulp64_subnormal [OF False small] by (simp add: powr_neg_numeral)
  define y where "y = x * 2 ^ 1074"
  have bound: "\<bar>y\<bar> \<le> 1 / 2"
  proof -
    have "\<bar>x\<bar> * 2 ^ 1074 \<le> 1 / 2 ^ 1075 * 2 ^ 1074"
      using assms by (intro mult_right_mono) simp_all
    then show ?thesis by (simp add: abs_mult y_def)
  qed
  have "round_even y = 0"
  proof -
    consider "0 \<le> y" "y < 1 / 2" | "y = 1 / 2" | "y < 0" "- (1 / 2) < y" | "y = - (1 / 2)"
      using bound by argo
    then show ?thesis
    proof cases
      case 1
      then show ?thesis by (rule round_even_small)
    next
      case 2
      have "\<lfloor>1 / 2 :: real\<rfloor> = 0" by (simp add: floor_eq_iff)
      then show ?thesis unfolding 2 by (simp add: round_even_def)
    next
      case 3
      then have "\<lfloor>y\<rfloor> = - 1" by (simp add: floor_eq_iff)
      with 3 show ?thesis by (simp add: round_even_def)
    next
      case 4
      have "\<lfloor>- (1 / 2) :: real\<rfloor> = - 1" by (simp add: floor_eq_iff)
      then show ?thesis unfolding 4 by (simp add: round_even_def)
    qed
  qed
  then have "round_even (x / ulp64 x) = 0" by (simp add: q y_def)
  then show ?thesis using False by (simp add: round64_def)
qed

lemma round_even_cases: "round_even y = \<lfloor>y\<rfloor> \<or> round_even y = \<lfloor>y\<rfloor> + 1"
  by (simp add: round_even_def)

lemma round_even_nonzero:
  assumes "1 / 2 < \<bar>y\<bar>"
  shows "round_even y \<noteq> 0"
proof (cases "0 \<le> y")
  case True
  then have y: "1 / 2 < y" using assms by simp
  then have f: "0 \<le> \<lfloor>y\<rfloor>" by simp
  show ?thesis
  proof (cases "\<lfloor>y\<rfloor> = 0")
    case True
    then have "1 / 2 < y - of_int \<lfloor>y\<rfloor>" using y by simp
    then show ?thesis using True by (simp add: round_even_def)
  next
    case False
    with f have "1 \<le> \<lfloor>y\<rfloor>" by linarith
    then show ?thesis using round_even_cases [of y] by linarith
  qed
next
  case False
  then have y: "y < - (1 / 2)" using assms by simp
  then have f: "\<lfloor>y\<rfloor> \<le> - 1" by (simp add: floor_le_iff)
  show ?thesis
  proof (cases "\<lfloor>y\<rfloor> = - 1")
    case True
    then have "y - of_int \<lfloor>y\<rfloor> < 1 / 2" using y by simp
    then show ?thesis using True by (simp add: round_even_def)
  next
    case False
    with f have "\<lfloor>y\<rfloor> \<le> - 2" by linarith
    then show ?thesis using round_even_cases [of y] by linarith
  qed
qed

lemma ulp64_pos: "0 < ulp64 x"
  by (simp add: ulp64_def)

lemma round64_nonzero:
  assumes "1 / 2 ^ 1075 < \<bar>x\<bar>"
  shows "round64 x \<noteq> Fin 0"
proof -
  have x0: "x \<noteq> 0" using assms by auto
  have big: "1 / 2 < \<bar>x / ulp64 x\<bar>"
  proof (cases "\<bar>x\<bar> < 2 powr - 1022")
    case True
    have q: "ulp64 x = 1 / 2 ^ 1074"
      using ulp64_subnormal [OF x0 True] by (simp add: powr_neg_numeral)
    have "1 / 2 ^ 1075 * 2 ^ 1074 < \<bar>x\<bar> * (2 ^ 1074 :: real)"
      using assms by (intro mult_strict_right_mono) simp_all
    then show ?thesis by (simp add: q abs_mult)
  next
    case False
    define e where "e = \<lfloor>log 2 \<bar>x\<bar>\<rfloor>"
    have pos: "0 < \<bar>x\<bar>" using x0 by simp
    have "of_int e \<le> log 2 \<bar>x\<bar>" unfolding e_def by simp
    then have lo: "2 powr of_int e \<le> \<bar>x\<bar>" using pos by (simp add: le_log_iff)
    have "- 1022 \<le> log 2 \<bar>x\<bar>" using False pos by (simp add: le_log_iff not_less)
    then have e: "- 1022 \<le> e" unfolding e_def by (simp add: le_floor_iff)
    have q: "ulp64 x = 2 powr of_int (e - 52)"
      unfolding ulp64_def e_def [symmetric] using e by (simp add: max_def)
    have eq: "\<bar>x / ulp64 x\<bar> = \<bar>x\<bar> / 2 powr of_int (e - 52)" by (simp add: q)
    have "(2::real) powr of_int e / 2 powr of_int (e - 52) = 2 powr (of_int e - of_int (e - 52))"
      by (simp only: powr_diff)
    also have "\<dots> = (2::real) ^ 52" by (simp add: powr_numeral)
    finally have "(2::real) ^ 52 = 2 powr of_int e / 2 powr of_int (e - 52)" by simp
    also have "\<dots> \<le> \<bar>x\<bar> / 2 powr of_int (e - 52)"
      using lo by (intro divide_right_mono) simp_all
    finally have "(2::real) ^ 52 \<le> \<bar>x / ulp64 x\<bar>" unfolding eq .
    moreover have "(1::real) / 2 < 2 ^ 52" by simp
    ultimately show ?thesis by (rule less_le_trans [rotated])
  qed
  then have n: "round_even (x / ulp64 x) \<noteq> 0" by (rule round_even_nonzero)
  have "of_int (round_even (x / ulp64 x)) * ulp64 x \<noteq> 0"
    using n ulp64_pos [of x] by simp
  then show ?thesis by (simp add: round64_def x0)
qed

lemma round64_eq_0_iff: "round64 x = Fin 0 \<longleftrightarrow> \<bar>x\<bar> \<le> 1 / 2 ^ 1075"
  using round64_underflow [of x] round64_nonzero [of x] by (cases "\<bar>x\<bar> \<le> 1 / 2 ^ 1075") auto

lemma round64_not_NaN: "round64 x \<noteq> NaN"
  by (simp add: round64_def)

lemma fl_div_zero_by: "p \<noteq> Fin 0 \<Longrightarrow> p \<noteq> NaN \<Longrightarrow> fl_div (Fin 0) p = Inr (Fin 0)"
  by (cases p) (simp_all add: round64_0)

text \<open>
  C3 (as stated, refuted). The claim has \<open>C0 = Cf\<close> for every \<open>vz > 0\<close> and \<open>h > 0\<close> when
  \<open>D = 0\<close>. For \<open>vz = h = 2\<^sup>-\<^sup>6\<^sup>0\<^sup>0\<close>, both binary64 values, the product \<^verbatim>\<open>vz * h\<close>
  rounds to zero and \<^verbatim>\<open>D / (vz * h)\<close> raises \<^verbatim>\<open>ZeroDivisionError\<close>.
\<close>

theorem inlet_ghost_underflow_counterexample:
  "is_double (1 / 2 ^ 600) \<and> (0::real) < 1 / 2 ^ 600 \<and>
   inlet_ghost_fl (Fin 0) (Fin (1 / 2 ^ 600)) (Fin (1 / 2 ^ 600)) (Fin 1) (Fin 1)
     = Inl ZeroDivisionError"
proof -
  have "\<bar>1 / 2 ^ 600 * (1 / 2 ^ 600) :: real\<bar> \<le> 1 / 2 ^ 1075" by simp
  then have "round64 (1 / 2 ^ 600 * (1 / 2 ^ 600)) = Fin 0" by (rule round64_underflow)
  then show ?thesis
    using is_double_tiny by (simp add: inlet_ghost_fl_def)
qed

text \<open>
  C3 (amended). With \<open>D = 0\<close>, finite \<open>vz\<close>, \<open>h\<close> and \<open>C1\<close> and a finite binary64 value
  \<open>Cf\<close>, the inlet closure returns exactly \<open>Cf\<close>, unless the product \<^verbatim>\<open>vz * h\<close> rounds
  to zero, which it does when its exact value is at most \<open>2\<^sup>-\<^sup>1\<^sup>0\<^sup>7\<^sup>5\<close> in magnitude; then
  the closure raises \<^verbatim>\<open>ZeroDivisionError\<close>.
\<close>

theorem inlet_ghost_fl_pure_advection:
  assumes "is_double f"
  shows "inlet_ghost_fl (Fin 0) (Fin a) (Fin b) (Fin f) (Fin c)
    = (if \<bar>a * b\<bar> \<le> 1 / 2 ^ 1075 then Inl ZeroDivisionError else Inr (Fin f))"
proof (cases "\<bar>a * b\<bar> \<le> 1 / 2 ^ 1075")
  case True
  then have "fl_mul (Fin a) (Fin b) = Fin 0" by (simp add: round64_eq_0_iff)
  with True show ?thesis by (simp add: inlet_ghost_fl_def)
next
  case False
  then have nz: "fl_mul (Fin a) (Fin b) \<noteq> Fin 0" by (simp add: round64_eq_0_iff)
  have "fl_mul (Fin a) (Fin b) \<noteq> NaN" by (simp add: round64_not_NaN)
  with nz have aux1: "fl_div (Fin 0) (fl_mul (Fin a) (Fin b)) = Inr (Fin 0)"
    by (rule fl_div_zero_by)
  have f: "round64 f = Fin f" using assms by (simp add: is_double_def)
  show ?thesis
    unfolding inlet_ghost_fl_def aux1 using False
    by (simp add: round64_1 round64_0 f)
qed

text \<open>Pure advection with feed concentration \<open>7\<close>, \<open>vz = 2\<close> and \<open>h = 1/4\<close>.\<close>

theorem inlet_ghost_fl_pure_advection_witness:
  "is_double 7 \<and> inlet_ghost_fl (Fin 0) (Fin 2) (Fin (1 / 4)) (Fin 7) (Fin 3) = Inr (Fin 7)"
proof -
  have "\<not> \<bar>2 * (1 / 4) :: real\<bar> \<le> 1 / 2 ^ 1075" by simp
  with inlet_ghost_fl_pure_advection [OF is_double_7, of 2 "1 / 4" 3] is_double_7
  show ?thesis by simp
qed

text \<open>
  C9. With \<open>D = 1\<close>, \<open>vz = 1\<close>, \<open>k = 0\<close>, \<open>Cf = 1\<close>, \<open>N = 3\<close>, \<open>h = 1/3\<close>, state
  \<open>[1, 1, 1]\<close> and derivative \<open>[0, 0, 0]\<close> the residual vector is \<open>[0, 0, 0]\<close>, for any
  residual buffer of length three and any domain bounds.
\<close>

theorem steady_state_residual:
  "length res = 3 \<Longrightarrow>
   model_pfr t [1, 1, 1] [0, 0, 0] \<lparr>D = 1, vz = 1, k = 0, Cf = 1, z0 = a, zf = b, N = 3, h = 1 / 3\<rparr> res
     = Inr ([0, 0, 0], 0)"
proof -
  assume res: "length res = 3"
  let ?P = "\<lparr>D = 1, vz = 1, k = 0, Cf = 1, z0 = a, zf = b, N = 3, h = 1 / 3\<rparr>"
  have "model_pfr t [1, 1, 1] [0, 0, 0] ?P res = kernel_value ?P [1, 1, 1] [0, 0, 0]"
    using res by (intro model_pfr_value) simp_all
  also have "\<dots> = Inr ([0, 0, 0], 0)"
    by (simp add: kernel_value_cases stencil_rows_def bulk_rows_def loop_row_def)
  finally show ?thesis .
qed

text \<open>The steady state with a buffer holding other numbers.\<close>

theorem steady_state_residual_witness:
  "model_pfr 0 [1, 1, 1] [0, 0, 0] \<lparr>D = 1, vz = 1, k = 0, Cf = 1, z0 = 0, zf = 1, N = 3, h = 1 / 3\<rparr> [7, 8, 9]
     = Inr ([0, 0, 0], 0)"
  using steady_state_residual [of "[7, 8, 9]" 0 0 1] by simp

subsection \<open>Index safety and the status flag\<close>

text \<open>
  C10. For \<open>N \<ge> 2\<close> with \<open>par.N = N\<close> and \<open>y\<close>, \<open>yp\<close>, \<open>res\<close> of length \<open>N\<close>, no array
  access of the element-wise kernel is out of range: the evaluation never raises
  \<^verbatim>\<open>IndexError\<close>, its only possible exception is a zero division in the scalar
  coefficients, and otherwise it returns a residual of length \<open>N\<close>; with the parameter
  object that \<^verbatim>\<open>pfr(N)\<close> constructs it always returns. For \<open>N = 2\<close> the index range of the
  loop is empty and the loop leaves the residual array as it is.
\<close>

theorem model_pfr_in_bounds:
  assumes "2 \<le> N par" "int (length y) = N par" "length yp = length y" "length res = length y"
  shows "model_pfr t y yp par res \<noteq> Inl IndexError \<and>
    (\<forall>e. model_pfr t y yp par res = Inl e \<longrightarrow> e = ZeroDivisionError) \<and>
    (vz par * h par \<noteq> 0 \<longrightarrow> 1 + D par / (vz par * h par) \<noteq> 0 \<longrightarrow>
      (\<exists>r. model_pfr t y yp par res = Inr (r, 0) \<and> length r = length res)) \<and>
    (pfr_init (N par) = Inr par \<longrightarrow>
      (\<exists>r. model_pfr t y yp par res = Inr (r, 0) \<and> length r = length res)) \<and>
    (N par = 2 \<longrightarrow> np_arange 1 (N par - 1) = [] \<and>
      (\<forall>aux2 aux3. pfr_loop par aux2 aux3 y yp (np_arange 1 (N par - 1)) res = Inr res))"
proof -
  have n: "2 \<le> length y" using assms by linarith
  have val: "model_pfr t y yp par res = kernel_value par y yp"
    using assms by (rule model_pfr_value)
  have built: "\<exists>r. model_pfr t y yp par res = Inr (r, 0) \<and> length r = length res"
    if "pfr_init (N par) = Inr par"
  proof -
    have "0 < N par" using assms(1) by simp
    then have "par = \<lparr>D = 1, vz = 1, k = 1, Cf = 1, z0 = 0, zf = 1, N = N par,
        h = 1 / real_of_int (N par)\<rparr>"
      using that by (simp add: pfr_init_pos)
    then have "vz par = 1" "D par = 1" "h par = 1 / real_of_int (N par)"
      by (metis pfr.select_convs(2), metis pfr.select_convs(1), metis pfr.select_convs(8))
    moreover have "real_of_int (N par) \<noteq> 0" "1 + real_of_int (N par) \<noteq> 0"
      using assms(1) by simp_all
    ultimately show ?thesis
      using n assms(4) by (simp add: val kernel_value_cases length_stencil_rows)
  qed
  from val built show ?thesis
    using n assms(4) by (simp add: kernel_value_cases length_stencil_rows np_arange_def)
qed

text \<open>Two nodes: the loop range is empty and the kernel returns.\<close>

theorem model_pfr_in_bounds_witness:
  "model_pfr 0 [1, 2] [0, 5] \<lparr>D = 1, vz = 1, k = 1, Cf = 1, z0 = 0, zf = 1, N = 2, h = 1 / 2\<rparr> [7, 7]
     \<noteq> Inl IndexError \<and>
   pfr_init 2 = Inr \<lparr>D = 1, vz = 1, k = 1, Cf = 1, z0 = 0, zf = 1, N = 2, h = 1 / 2\<rparr> \<and>
   (\<exists>r. model_pfr 0 [1, 2] [0, 5] \<lparr>D = 1, vz = 1, k = 1, Cf = 1, z0 = 0, zf = 1, N = 2, h = 1 / 2\<rparr> [7, 7]
      = Inr (r, 0) \<and> length r = length [7, 7 :: real]) \<and>
   np_arange 1 (2 - 1) = []"
proof -
  let ?P = "\<lparr>D = 1, vz = 1, k = 1, Cf = 1, z0 = 0, zf = 1, N = 2, h = 1 / 2\<rparr>"
  have hyps: "2 \<le> N ?P" "int (length [1, 2 :: real]) = N ?P"
    "length [0, 5 :: real] = length [1, 2 :: real]" "length [7, 7 :: real] = length [1, 2 :: real]"
    by simp_all
  have divs: "vz ?P * h ?P \<noteq> 0" "1 + D ?P / (vz ?P * h ?P) \<noteq> 0" "N ?P = 2"
    by simp_all
  have built: "pfr_init 2 = Inr ?P"
    by (simp add: pfr_init_pos)
  from model_pfr_in_bounds [OF hyps, of 0] divs built show ?thesis
    by (simp add: np_arange_def)
qed

text \<open>
  C6 (as stated, refuted). The claim has a failing evaluation reported through a nonzero
  status instead of an exception. With the object of \<^verbatim>\<open>pfr(1)\<close> and arrays of length one
  both kernels fail at the read of \<^verbatim>\<open>Ci[1]\<close>, and the failure is the exception.
\<close>

theorem raises_instead_of_status_counterexample:
  "model_pfr 0 [0] [0] \<lparr>D = 1, vz = 1, k = 1, Cf = 1, z0 = 0, zf = 1, N = 1, h = 1\<rparr> [0] = Inl IndexError \<and>
   model_pfr_np 0 [0] [0] \<lparr>D = 1, vz = 1, k = 1, Cf = 1, z0 = 0, zf = 1, N = 1, h = 1\<rparr> [0] = Inl IndexError"
  by (simp add: model_pfr_def model_pfr_np_def inlet_ghost_def py_div_def np_get_def)

text \<open>
  C6 (amended). Whenever the element-wise or the bulk-array kernel returns, the status
  it returns is \<open>0\<close>; no input makes either return another status.
\<close>

theorem status_always_zero:
  "(model_pfr t y yp par res = Inr (r, s) \<longrightarrow> s = 0) \<and>
   (model_pfr_np t y yp par res = Inr (r, s) \<longrightarrow> s = 0)"
  by (auto simp: model_pfr_def model_pfr_np_def bindE_eq_Inr)

text \<open>A returning evaluation, with status \<open>0\<close>.\<close>

theorem status_always_zero_witness:
  "model_pfr 0 [1, 1, 1] [0, 0, 0] \<lparr>D = 1, vz = 1, k = 0, Cf = 1, z0 = 0, zf = 1, N = 3, h = 1 / 3\<rparr> [7, 7, 7]
     = Inr ([0, 0, 0], 0) \<and>
   model_pfr_np 0 [1, 1, 1] [0, 0, 0] \<lparr>D = 1, vz = 1, k = 0, Cf = 1, z0 = 0, zf = 1, N = 3, h = 1 / 3\<rparr> [7, 7, 7]
     = Inr ([0, 0, 0], 0)"
proof -
  let ?P = "\<lparr>D = 1, vz = 1, k = 0, Cf = 1, z0 = 0, zf = 1, N = 3, h = 1 / 3\<rparr>"
  have val: "kernel_value ?P [1, 1, 1] [0, 0, 0] = Inr ([0, 0, 0], 0)"
    by (simp add: kernel_value_cases stencil_rows_def bulk_rows_def loop_row_def)
  have "model_pfr 0 [1, 1, 1] [0, 0, 0] ?P [7, 7, 7] = kernel_value ?P [1, 1, 1] [0, 0, 0]"
    by (rule model_pfr_value) simp_all
  moreover
  have "model_pfr_np 0 [1, 1, 1] [0, 0, 0] ?P [7, 7, 7] = kernel_value ?P [1, 1, 1] [0, 0, 0]"
    by (rule model_pfr_np_value) simp_all
  ultimately show ?thesis
    using val status_always_zero [of 0 "[1, 1, 1]" "[0, 0, 0]" ?P "[7, 7, 7]" "[0, 0, 0]" 0]
    by simp
qed

subsection \<open>Set-ups of the timing comparison\<close>

text \<open>
  C8 (as stated, refuted). The claim gives every kernel variant its own parameter object
  and buffers. \<^verbatim>\<open>setups_all(2)\<close> on an empty heap returns three set-ups, and \<^verbatim>\<open>run_py\<close>
  and \<^verbatim>\<open>run_np\<close> both unpack the first: the same argument list, the same parameter
  object and the same two arrays.
\<close>

theorem shared_setup_counterexample:
  "setups_all 2 [] = Inr ((3, (4, 8), 13),
     [Pfr \<lparr>D = 1, vz = 1, k = 1, Cf = 1, z0 = 0, zf = 1, N = 2, h = 1 / 2\<rparr>,
      NdArray [5],
      NdArray [0, 0],
      PyList [VRef 1, VRef 2, VNone, VRef 0, VFloat (1 / 10 ^ 6), VFloat (1 / 10 ^ 8)],
      Pfr_Cython \<lparr>D = 1, vz = 1, k = 1, Cf = 1, z0 = 0, zf = 1, N = 2, h = 1 / 2\<rparr>,
      Pfr \<lparr>D = 1, vz = 1, k = 1, Cf = 1, z0 = 0, zf = 1, N = 2, h = 1 / 2\<rparr>,
      NdArray [5],
      NdArray [0, 0],
      PyList [VRef 6, VRef 7, VNone, VNone, VFloat (1 / 10 ^ 6), VFloat (1 / 10 ^ 8)],
      Numba_PFR \<lparr>D = 1, vz = 1, k = 1, Cf = 1, z0 = 0, zf = 1, N = 2, h = 1 / 2\<rparr>,
      Pfr \<lparr>D = 1, vz = 1, k = 1, Cf = 1, z0 = 0, zf = 1, N = 2, h = 1 / 2\<rparr>,
      NdArray [5],
      NdArray [0, 0],
      PyList [VRef 11, VRef 12, VNone, VRef 9, VFloat (1 / 10 ^ 6), VFloat (1 / 10 ^ 8)]]) \<and>
   runner_args Run_py (3, (4, 8), 13) = runner_args Run_np (3, (4, 8), 13) \<and>
   runner_objs
     [Pfr \<lparr>D = 1, vz = 1, k = 1, Cf = 1, z0 = 0, zf = 1, N = 2, h = 1 / 2\<rparr>,
      NdArray [5],
      NdArray [0, 0],
      PyList [VRef 1, VRef 2, VNone, VRef 0, VFloat (1 / 10 ^ 6), VFloat (1 / 10 ^ 8)],
      Pfr_Cython \<lparr>D = 1, vz = 1, k = 1, Cf = 1, z0 = 0, zf = 1, N = 2, h = 1 / 2\<rparr>,
      Pfr \<lparr>D = 1, vz = 1, k = 1, Cf = 1, z0 = 0, zf = 1, N = 2, h = 1 / 2\<rparr>,
      NdArray [5],
      NdArray [0, 0],
      PyList [VRef 6, VRef 7, VNone, VNone, VFloat (1 / 10 ^ 6), VFloat (1 / 10 ^ 8)],
      Numba_PFR \<lparr>D = 1, vz = 1, k = 1, Cf = 1, z0 = 0, zf = 1, N = 2, h = 1 / 2\<rparr>,
      Pfr \<lparr>D = 1, vz = 1, k = 1, Cf = 1, z0 = 0, zf = 1, N = 2, h = 1 / 2\<rparr>,
      NdArray [5],
      NdArray [0, 0],
      PyList [VRef 11, VRef 12, VNone, VRef 9, VFloat (1 / 10 ^ 6), VFloat (1 / 10 ^ 8)]]
     Run_py (3, (4, 8), 13)
   \<inter> runner_objs
     [Pfr \<lparr>D = 1, vz = 1, k = 1, Cf = 1, z0 = 0, zf = 1, N = 2, h = 1 / 2\<rparr>,
      NdArray [5],
      NdArray [0, 0],
      PyList [VRef 1, VRef 2, VNone, VRef 0, VFloat (1 / 10 ^ 6), VFloat (1 / 10 ^ 8)],
      Pfr_Cython \<lparr>D = 1, vz = 1, k = 1, Cf = 1, z0 = 0, zf = 1, N = 2, h = 1 / 2\<rparr>,
      Pfr \<lparr>D = 1, vz = 1, k = 1, Cf = 1, z0 = 0, zf = 1, N = 2, h = 1 / 2\<rparr>,
      NdArray [5],
      NdArray [0, 0],
      PyList [VRef 6, VRef 7, VNone, VNone, VFloat (1 / 10 ^ 6), VFloat (1 / 10 ^ 8)],
      Numba_PFR \<lparr>D = 1, vz = 1, k = 1, Cf = 1, z0 = 0, zf = 1, N = 2, h = 1 / 2\<rparr>,
      Pfr \<lparr>D = 1, vz = 1, k = 1, Cf = 1, z0 = 0, zf = 1, N = 2, h = 1 / 2\<rparr>,
      NdArray [5],
      NdArray [0, 0],
      PyList [VRef 11, VRef 12, VNone, VRef 9, VFloat (1 / 10 ^ 6), VFloat (1 / 10 ^ 8)]]
     Run_np (3, (4, 8), 13)
   = {0, 1, 2, 3}"
proof -
  have "setups_all 2 [] = Inr ((3, (4, 8), 13),
     [Pfr \<lparr>D = 1, vz = 1, k = 1, Cf = 1, z0 = 0, zf = 1, N = 2, h = 1 / 2\<rparr>,
      NdArray [5],
      NdArray [0, 0],
      PyList [VRef 1, VRef 2, VNone, VRef 0, VFloat (1 / 10 ^ 6), VFloat (1 / 10 ^ 8)],
      Pfr_Cython \<lparr>D = 1, vz = 1, k = 1, Cf = 1, z0 = 0, zf = 1, N = 2, h = 1 / 2\<rparr>,
      Pfr \<lparr>D = 1, vz = 1, k = 1, Cf = 1, z0 = 0, zf = 1, N = 2, h = 1 / 2\<rparr>,
      NdArray [5],
      NdArray [0, 0],
      PyList [VRef 6, VRef 7, VNone, VNone, VFloat (1 / 10 ^ 6), VFloat (1 / 10 ^ 8)],
      Numba_PFR \<lparr>D = 1, vz = 1, k = 1, Cf = 1, z0 = 0, zf = 1, N = 2, h = 1 / 2\<rparr>,
      Pfr \<lparr>D = 1, vz = 1, k = 1, Cf = 1, z0 = 0, zf = 1, N = 2, h = 1 / 2\<rparr>,
      NdArray [5],
      NdArray [0, 0],
      PyList [VRef 11, VRef 12, VNone, VRef 9, VFloat (1 / 10 ^ 6), VFloat (1 / 10 ^ 8)]])"
    using setups_all_pos [of 2 "[]"] by (simp add: numeral_2_eq_2)
  then show ?thesis
    by (simp add: runner_objs_def list_items_def deref_def insert_commute)
qed

text \<open>
  C8 (amended). For \<open>0 < N < 2\<^sup>3\<^sup>1\<close>, \<^verbatim>\<open>setups_all(N)\<close> returns three set-ups made of
  newly allocated objects and leaves the older objects untouched. \<^verbatim>\<open>run_py\<close>,
  \<^verbatim>\<open>run_np\<close>, \<^verbatim>\<open>run_cy_naive\<close> and \<^verbatim>\<open>run_np_no_share\<close> share the objects of the first
  set-up; the first set-up, the set-up of \<^verbatim>\<open>run_cy_typed\<close> and the set-up of
  \<^verbatim>\<open>run_numba\<close> have no object in common. Two calls for the same \<open>N\<close>, from any two
  heaps, give every timed function the same parameter values and the same initial state,
  so the kernel of \<^verbatim>\<open>run_py\<close> computes the same residual on both for the same inputs.
\<close>

theorem setups_all_isolation:
  assumes "0 < n" "n < 2 ^ 31"
  shows "\<exists>s1 h1 s2 h2 p.
    setups_all n hp1 = Inr (s1, h1) \<and> setups_all n hp2 = Inr (s2, h2) \<and> pfr_init n = Inr p \<and>
    runner_objs h1 Run_np s1 = runner_objs h1 Run_py s1 \<and>
    runner_objs h1 Run_cy_naive s1 = runner_objs h1 Run_py s1 \<and>
    runner_objs h1 Run_np_no_share s1 = runner_objs h1 Run_py s1 \<and>
    runner_objs h1 Run_py s1 \<inter> runner_objs h1 Run_cy_typed s1 = {} \<and>
    runner_objs h1 Run_py s1 \<inter> runner_objs h1 Run_numba s1 = {} \<and>
    runner_objs h1 Run_cy_typed s1 \<inter> runner_objs h1 Run_numba s1 = {} \<and>
    (\<forall>r. \<forall>x \<in> runner_objs h1 r s1. length hp1 \<le> x \<and> x < length h1) \<and>
    take (length hp1) h1 = hp1 \<and>
    (\<forall>r. runner_par h1 r s1 = Some p \<and> runner_par h2 r s2 = Some p \<and>
         runner_y0 h1 r s1 = Some (replicate (nat n) 0) \<and>
         runner_y0 h2 r s2 = Some (replicate (nat n) 0)) \<and>
    (\<forall>t yp res. run_py_residual h1 s1 t yp res = run_py_residual h2 s2 t yp res)"
proof -
  let ?p = "\<lparr>D = 1, vz = 1, k = 1, Cf = 1, z0 = 0, zf = 1, N = n, h = 1 / real_of_int n\<rparr>"
  let ?s1 = "(length hp1 + 3, (length hp1 + 4, length hp1 + 8), length hp1 + 13)"
  let ?s2 = "(length hp2 + 3, (length hp2 + 4, length hp2 + 8), length hp2 + 13)"
  let ?h1 = "hp1 @ setup_heap n (length hp1)" and ?h2 = "hp2 @ setup_heap n (length hp2)"
  have run1: "setups_all n hp1 = Inr (?s1, ?h1)" and run2: "setups_all n hp2 = Inr (?s2, ?h2)"
    using assms by (rule setups_all_heap)+
  have p: "pfr_init n = Inr ?p"
    using assms(1) by (rule pfr_init_pos)
  note objs = setup_heap_objs [of hp1 n]
  have len: "length ?h1 = length hp1 + 14"
    by (simp add: setup_heap_def)
  have fresh: "\<forall>x \<in> runner_objs ?h1 r ?s1. length hp1 \<le> x \<and> x < length ?h1" for r
    unfolding len by (cases r) (simp_all add: objs)
  have content: "runner_par ?h1 r ?s1 = Some ?p \<and> runner_par ?h2 r ?s2 = Some ?p \<and>
      runner_y0 ?h1 r ?s1 = Some (replicate (nat n) 0) \<and>
      runner_y0 ?h2 r ?s2 = Some (replicate (nat n) 0)" for r
    by (simp only: setup_heap_content simp_thms)
  have same: "run_py_residual ?h1 ?s1 t yp res = run_py_residual ?h2 ?s2 t yp res" for t yp res
    unfolding run_py_residual_def by (simp only: setup_heap_content)
  have disj: "runner_objs ?h1 Run_py ?s1 \<inter> runner_objs ?h1 Run_cy_typed ?s1 = {}"
    "runner_objs ?h1 Run_py ?s1 \<inter> runner_objs ?h1 Run_numba ?s1 = {}"
    "runner_objs ?h1 Run_cy_typed ?s1 \<inter> runner_objs ?h1 Run_numba ?s1 = {}"
    by (simp_all add: objs)
  have shared: "runner_objs ?h1 Run_np ?s1 = runner_objs ?h1 Run_py ?s1"
    "runner_objs ?h1 Run_cy_naive ?s1 = runner_objs ?h1 Run_py ?s1"
    "runner_objs ?h1 Run_np_no_share ?s1 = runner_objs ?h1 Run_py ?s1"
    by (simp_all only: objs)
  have old: "take (length hp1) ?h1 = hp1" by simp
  from run1 run2 p shared disj fresh old content same show ?thesis by blast
qed

text \<open>Two calls for two nodes, one from the empty heap and one from a heap of one object.\<close>

theorem setups_all_isolation_witness:
  "\<exists>s1 h1 s2 h2 p.
    setups_all 2 [] = Inr (s1, h1) \<and> setups_all 2 [NdArray [1]] = Inr (s2, h2) \<and>
    pfr_init 2 = Inr p \<and>
    runner_objs h1 Run_py s1 \<inter> runner_objs h1 Run_cy_typed s1 = {} \<and>
    runner_objs h1 Run_py s1 \<inter> runner_objs h1 Run_numba s1 = {} \<and>
    runner_objs h1 Run_cy_typed s1 \<inter> runner_objs h1 Run_numba s1 = {} \<and>
    (\<forall>r. runner_par h1 r s1 = Some p \<and> runner_par h2 r s2 = Some p) \<and>
    (\<forall>t yp res. run_py_residual h1 s1 t yp res = run_py_residual h2 s2 t yp res)"
proof -
  have hyps: "(0::int) < 2" "(2::int) < 2 ^ 31" by simp_all
  from setups_all_isolation [OF hyps, of "[]" "[NdArray [1]]"] show ?thesis by blast
qed

end
